theory Spec2Isabelle
  imports Main "HOL-Library.AList"
begin

section \<open>Argument documents\<close>

text \<open>
  The arguments of an operation (\<open>where\<close>, \<open>data\<close>, \<open>include\<close>, ...) are
  untyped JavaScript values. They are modelled as documents: an object is an association
  list in insertion order (the first binding of a key is the one that counts), a \<open>Date\<close>
  is its epoch value. Only own properties of plain objects are modelled: reading a
  property of any other value gives \<open>undefined\<close> and spreading it gives nothing, so
  inherited properties and the index properties of arrays and strings are outside the
  model, and so is a number that is \<open>NaN\<close>.
\<close>

datatype jsval =
    JUndefined
  | JNull
  | JBool bool
  | JNum int
  | JStr string
  | JDate int
  | JArr "jsval list"
  | JObj "(string \<times> jsval) list"

text \<open>JavaScript truthiness, as used by \<open>!\<close>, \<open>&&\<close>, \<open>||\<close> and \<open>if\<close>.\<close>

fun truthy :: "jsval \<Rightarrow> bool" where
  "truthy JUndefined = False"
| "truthy JNull = False"
| "truthy (JBool b) = b"
| "truthy (JNum n) = (n \<noteq> 0)"
| "truthy (JStr s) = (s \<noteq> [])"
| "truthy (JDate d) = True"
| "truthy (JArr xs) = True"
| "truthy (JObj kvs) = True"

text \<open>The own enumerable properties, which a spread \<open>{...v}\<close> copies.\<close>

fun props :: "jsval \<Rightarrow> (string \<times> jsval) list" where
  "props (JObj kvs) = kvs"
| "props v = []"

text \<open>\<open>v?.[k]\<close>, and \<open>v[k]\<close> where \<open>v\<close> is known not to be null or undefined.\<close>

definition get :: "jsval \<Rightarrow> string \<Rightarrow> jsval" where
  "get v k = (case map_of (props v) k of None \<Rightarrow> JUndefined | Some x \<Rightarrow> x)"

text \<open>\<open>Object.keys(v)\<close> for a value that is not null or undefined.\<close>

definition keys :: "jsval \<Rightarrow> string list" where
  "keys v = map fst (props v)"

text \<open>\<open>a || b\<close> on values.\<close>

definition orElse :: "jsval \<Rightarrow> jsval \<Rightarrow> jsval" where
  "orElse a b = (if truthy a then a else b)"

text \<open>\<open>{ ...v, [k]: x }\<close>: a key already there keeps its place and takes the new value.\<close>

definition spreadSet :: "jsval \<Rightarrow> string \<Rightarrow> jsval \<Rightarrow> jsval" where
  "spreadSet v k x = JObj (AList.update k x (props v))"

text \<open>\<open>typeof v === "boolean"\<close> and \<open>typeof v === "object"\<close>.\<close>

fun isBoolean :: "jsval \<Rightarrow> bool" where
  "isBoolean (JBool b) = True"
| "isBoolean v = False"

fun typeofObject :: "jsval \<Rightarrow> bool" where
  "typeofObject JNull = True"
| "typeofObject (JDate d) = True"
| "typeofObject (JArr xs) = True"
| "typeofObject (JObj kvs) = True"
| "typeofObject v = False"

section \<open>Strings\<close>

text \<open>
  \<open>toLowerCase\<close> on the ASCII letters (model and relation names are identifiers),
  \<open>String.prototype.includes\<close> and \<open>Array.prototype.join\<close>.
\<close>

definition toLowerChar :: "char \<Rightarrow> char" where
  "toLowerChar c =
     (case map_of (zip ''ABCDEFGHIJKLMNOPQRSTUVWXYZ'' ''abcdefghijklmnopqrstuvwxyz'') c of
        None \<Rightarrow> c
      | Some l \<Rightarrow> l)"

definition toLowerCase :: "string \<Rightarrow> string" where
  "toLowerCase s = map toLowerChar s"

fun startsWith :: "string \<Rightarrow> string \<Rightarrow> bool" where
  "startsWith s [] = True"
| "startsWith [] (y # ys) = False"
| "startsWith (x # xs) (y # ys) = (x = y \<and> startsWith xs ys)"

fun includesStr :: "string \<Rightarrow> string \<Rightarrow> bool" where
  "includesStr [] t = (t = [])"
| "includesStr (x # xs) t = (startsWith (x # xs) t \<or> includesStr xs t)"

fun join :: "string \<Rightarrow> string list \<Rightarrow> string" where
  "join sep [] = []"
| "join sep [x] = x"
| "join sep (x # y # ys) = x @ sep @ join sep (y # ys)"

section \<open>Errors\<close>

text \<open>
  Every \<open>throw\<close> of the source is a value. The two construction errors and the three
  guard errors are plain \<open>Error\<close>s told apart by their message; the constructors carry
  what the message interpolates. \<open>TypeError\<close> is the runtime error of reading a property
  of \<open>undefined\<close> or calling what is not a function, \<open>ClientError\<close> a rejection by
  the underlying client.
\<close>

datatype error =
    DefaultConfigFieldRequired
  | DefaultConfigCreateValueRequired
  | UpdateThroughToOne "string option" "string option" string
  | UpsertThroughToOne "string option" "string option" string
  | CompoundUniqueIndexQuery "string option" string
  | TypeError
  | ClientError string

definition bindE :: "error + 'a \<Rightarrow> ('a \<Rightarrow> error + 'b) \<Rightarrow> error + 'b" where
  "bindE r f = (case r of Inl e \<Rightarrow> Inl e | Inr v \<Rightarrow> f v)"

section \<open>Configuration and parameters (types.ts)\<close>

datatype TrashedOption = OptAll | OptOnly | OptExcept

text \<open>
  \<open>field\<close> and \<open>createValue\<close> are required by the type, but a configuration object
  reaches the extension unchecked, so both may be missing (\<open>None\<close>). The optional
  booleans are only ever tested for truthiness: absent is \<open>False\<close>. \<open>queryOption\<close> and
  \<open>nestModels\<close> may be absent.
\<close>

record ModelConfig =
  field :: "string option"
  createValue :: "(bool \<Rightarrow> jsval) option"
  allowToOneUpdates :: bool
  allowCompoundUniqueIndexWhere :: bool
  queryOption :: "TrashedOption option"
  nestModels :: "(string \<times> bool) list option"
  forceDelete :: bool

text \<open>\<open>[config.field]\<close> as a computed key: a missing field is the key \<open>undefined\<close>.\<close>

definition fieldKey :: "ModelConfig \<Rightarrow> string" where
  "fieldKey config = (case field config of None \<Rightarrow> ''undefined'' | Some f \<Rightarrow> f)"

text \<open>\<open>config.createValue(deleted)\<close>: a missing function cannot be called.\<close>

definition callCreateValue :: "ModelConfig \<Rightarrow> bool \<Rightarrow> error + jsval" where
  "callCreateValue config deleted =
     (case createValue config of None \<Rightarrow> Inl TypeError | Some f \<Rightarrow> Inr (f deleted))"

record relationTo =
  name :: string
  isList :: bool

record relations =
  to :: relationTo

datatype params =
  Params (model: "string option") (operation: string) (args: jsval) (scope: "scope option")
and scope =
  Scope (parentParams: params) (relations: "relations option") (modifier: "string option")

text \<open>\<open>{ ...params, operation, args }\<close> and \<open>{ ...params, args }\<close>.\<close>

definition withOperationArgs :: "params \<Rightarrow> string \<Rightarrow> jsval \<Rightarrow> params" where
  "withOperationArgs p op a = Params (model p) op a (scope p)"

definition withArgs :: "params \<Rightarrow> jsval \<Rightarrow> params" where
  "withArgs p a = Params (model p) (operation p) a (scope p)"

text \<open>The context a rule hands to the result restorer.\<close>

record ctx =
  deletedFieldAdded :: bool

type_synonym CreateParamsReturn = "params \<times> ctx option"

section \<open>Schema metadata (the module-level tables of createParams.ts)\<close>

text \<open>
  \<open>Prisma.dmmf.datamodel.models\<close> comes from the generated client; it is a parameter
  here. Of a model the tables read its name, its compound unique indexes and, of each
  field, the name and the two flags.
\<close>

record DMMF_Field =
  field_name :: string
  isId :: bool
  isUnique :: bool

record DMMF_Model =
  model_name :: string
  uniqueFields :: "string list list"
  model_fields :: "DMMF_Field list"

text \<open>A later model of the same name overwrites the entry of an earlier one.\<close>

definition uniqueIndexFieldsByModel :: "DMMF_Model list \<Rightarrow> string \<Rightarrow> string list option" where
  "uniqueIndexFieldsByModel dm =
     map_of (rev (map (\<lambda>m. (model_name m, map (join ''_'') (uniqueFields m))) dm))"

definition uniqueFieldsByModel :: "DMMF_Model list \<Rightarrow> string \<Rightarrow> string list option" where
  "uniqueFieldsByModel dm =
     map_of (rev (map (\<lambda>m. (model_name m,
        map field_name (filter (\<lambda>f. isId f \<or> isUnique f) (model_fields m)))) dm))"

text \<open>\<open>table[params.model || ""] || []\<close>.\<close>

definition tableLookup :: "(string \<Rightarrow> string list option) \<Rightarrow> string option \<Rightarrow> string list" where
  "tableLookup table m =
     (case table (case m of None \<Rightarrow> [] | Some n \<Rightarrow> n) of None \<Rightarrow> [] | Some xs \<Rightarrow> xs)"

section \<open>The rewrite rules (helpers/createParams.ts)\<close>

text \<open>
  \<open>isEmptyObject\<close>: \<open>Object.keys\<close> throws on \<open>undefined\<close> and \<open>null\<close>; of the other
  values only the plain object without keys has both no keys and the constructor
  \<open>Object\<close>.
\<close>

fun isEmptyObject :: "jsval \<Rightarrow> error + bool" where
  "isEmptyObject JUndefined = Inl TypeError"
| "isEmptyObject JNull = Inl TypeError"
| "isEmptyObject (JObj kvs) = Inr (kvs = [])"
| "isEmptyObject v = Inr False"

text \<open>\<open>config.nestModels\<close> as a value.\<close>

definition nestModelsVal :: "ModelConfig \<Rightarrow> jsval" where
  "nestModelsVal config =
     (case nestModels config of
        None \<Rightarrow> JUndefined
      | Some nm \<Rightarrow> JObj (map (\<lambda>(k, b). (k, JBool b)) nm))"

text \<open>A \<open>forEach\<close> whose body may throw and that updates one local variable.\<close>

fun forEachE :: "('a \<Rightarrow> 'b \<Rightarrow> error + 'b) \<Rightarrow> 'a list \<Rightarrow> 'b \<Rightarrow> error + 'b" where
  "forEachE f [] acc = Inr acc"
| "forEachE f (x # xs) acc = bindE (f x acc) (forEachE f xs)"

text \<open>
  The body of the inner \<open>forEach\<close> of \<open>getInclude\<close>, on the local \<open>include\<close>;
  \<open>relation\<close> is the included relation the source calls \<open>model\<close>.
\<close>

definition includeStep :: "ModelConfig \<Rightarrow> params \<Rightarrow> string \<Rightarrow> string \<Rightarrow> jsval \<Rightarrow> error + jsval" where
  "includeStep config p key relation include =
     (let where = orElse (get (get (get (args p) ''include'') relation) ''where'') (JObj []) in
      if includesStr (toLowerCase relation) (toLowerCase key) then
        if truthy (get (nestModelsVal config) key) then
          Inr (spreadSet include relation (JObj [(''where'', where)]))
        else
          bindE (callCreateValue config False) (\<lambda>v.
            Inr (spreadSet include relation
                   (JObj [(''where'', spreadSet where (fieldKey config) v)])))
      else Inr include)"

definition getInclude :: "ModelConfig \<Rightarrow> params \<Rightarrow> error + jsval" where
  "getInclude config p =
     bindE (isEmptyObject (nestModelsVal config)) (\<lambda>empty.
       if empty then Inr (orElse (get (args p) ''include'') (JObj []))
       else
         forEachE
           (\<lambda>key. forEachE (includeStep config p key)
                     (keys (orElse (get (args p) ''include'') (JObj []))))
           (keys (orElse (nestModelsVal config) (JObj [])))
           (JObj []))"

definition getWhere :: "ModelConfig \<Rightarrow> params \<Rightarrow> error + jsval" where
  "getWhere config p =
     (let where = orElse (get (orElse (args p) (JObj [])) ''where'') (JObj [])
      in case queryOption config of
           Some OptAll \<Rightarrow> Inr where
         | Some OptOnly \<Rightarrow>
             bindE (callCreateValue config False) (\<lambda>v.
               Inr (spreadSet where (fieldKey config) (JObj [(''not'', v)])))
         | _ \<Rightarrow>
             if truthy (get where (fieldKey config))
             then Inr (spreadSet where (fieldKey config) (get where (fieldKey config)))
             else bindE (callCreateValue config False) (\<lambda>v.
                    Inr (spreadSet where (fieldKey config) v)))"

definition getNewWhere :: "ModelConfig \<Rightarrow> jsval \<Rightarrow> error + jsval" where
  "getNewWhere config where =
     (case queryOption config of
        Some OptAll \<Rightarrow> Inr (JObj (props where))
      | Some OptOnly \<Rightarrow>
          bindE (callCreateValue config False) (\<lambda>v.
            Inr (spreadSet where (fieldKey config) (JObj [(''not'', v)])))
      | _ \<Rightarrow>
          bindE (callCreateValue config False) (\<lambda>v.
            Inr (spreadSet where (fieldKey config) v)))"

text \<open>\<open>!params.model\<close>: the model is missing or the empty string.\<close>

definition noModel :: "params \<Rightarrow> bool" where
  "noModel p = (case model p of None \<Rightarrow> True | Some m \<Rightarrow> m = [])"

definition createDeleteParams :: "ModelConfig \<Rightarrow> params \<Rightarrow> error + CreateParamsReturn" where
  "createDeleteParams config p =
     (if noModel p
         \<or> (isBoolean (args p) \<and> \<not> truthy (args p))
         \<or> (scope p = None \<and> \<not> truthy (get (args p) ''where''))
      then Inr (p, None)
      else if isBoolean (args p) then
        bindE (callCreateValue config True) (\<lambda>v.
          Inr (withOperationArgs p (if forceDelete config then ''delete'' else ''update'')
                 (spreadSet (JObj [(''__passUpdateThrough'', JBool True)]) (fieldKey config) v),
               None))
      else
        bindE (getNewWhere config (orElse (get (args p) ''where'') (args p))) (\<lambda>where.
        bindE (callCreateValue config True) (\<lambda>v.
          Inr (withOperationArgs p (if forceDelete config then ''delete'' else ''update'')
                 (JObj [(''where'', where), (''data'', JObj [(fieldKey config, v)])]),
               None))))"

definition createDeleteManyParams :: "ModelConfig \<Rightarrow> params \<Rightarrow> error + CreateParamsReturn" where
  "createDeleteManyParams config p =
     (if noModel p then Inr (p, None)
      else
        bindE (getNewWhere config (orElse (get (args p) ''where'') (args p))) (\<lambda>where.
          if forceDelete config then
            Inr (withOperationArgs p ''deleteMany'' (JObj [(''where'', where)]), None)
          else
            bindE (callCreateValue config True) (\<lambda>v.
              Inr (withOperationArgs p ''updateMany''
                     (JObj [(''where'', where), (''data'', JObj [(fieldKey config, v)])]),
                   None))))"

text \<open>\<open>params.scope?.relations && !params.scope.relations.to.isList\<close>.\<close>

definition throughToOne :: "params \<Rightarrow> relationTo option" where
  "throughToOne p =
     (case scope p of
        None \<Rightarrow> None
      | Some s \<Rightarrow>
          (case relations s of
             None \<Rightarrow> None
           | Some r \<Rightarrow> if isList (to r) then None else Some (to r)))"

text \<open>\<open>params.scope?.parentParams.model\<close>, for the messages.\<close>

definition parentModel :: "params \<Rightarrow> string option" where
  "parentModel p = (case scope p of None \<Rightarrow> None | Some s \<Rightarrow> model (parentParams s))"

text \<open>
  The end of \<open>createUpdateParams\<close>. \<open>delete params.args.__passUpdateThrough\<close> changes
  the arguments in place; the rule returns the parameters with the key removed.
\<close>

definition removePassUpdateThrough :: "params \<Rightarrow> params" where
  "removePassUpdateThrough p =
     (if truthy (get (args p) ''__passUpdateThrough'')
      then withArgs p (JObj (AList.delete ''__passUpdateThrough'' (props (args p))))
      else p)"

definition createUpdateParams :: "ModelConfig \<Rightarrow> params \<Rightarrow> error + CreateParamsReturn" where
  "createUpdateParams config p =
     (case throughToOne p of
        Some t \<Rightarrow>
          if \<not> allowToOneUpdates config \<and> \<not> truthy (get (args p) ''__passUpdateThrough'')
          then Inl (UpdateThroughToOne (model p) (parentModel p) (name t))
          else Inr (removePassUpdateThrough p, None)
      | None \<Rightarrow> Inr (removePassUpdateThrough p, None))"

definition createUpdateManyParams :: "ModelConfig \<Rightarrow> params \<Rightarrow> error + CreateParamsReturn" where
  "createUpdateManyParams config p =
     (if \<not> truthy (args p) then Inr (p, None)
      else
        let where = get (args p) ''where'' in
        if truthy (get where (fieldKey config))
        then Inr (withArgs p (spreadSet (args p) ''where''
                    (spreadSet where (fieldKey config) (get where (fieldKey config)))), None)
        else bindE (callCreateValue config False) (\<lambda>v.
               Inr (withArgs p (spreadSet (args p) ''where''
                      (spreadSet where (fieldKey config) v)), None)))"

definition createUpsertParams :: "ModelConfig \<Rightarrow> params \<Rightarrow> error + CreateParamsReturn" where
  "createUpsertParams config p =
     (case throughToOne p of
        Some t \<Rightarrow> Inl (UpsertThroughToOne (model p) (parentModel p) (name t))
      | None \<Rightarrow> Inr (p, None))"

text \<open>
  \<open>Object.keys(params.args?.where || {}).find(key => uniqueIndexFields.includes(key))\<close>
\<close>

definition uniqueIndexField :: "DMMF_Model list \<Rightarrow> params \<Rightarrow> string option" where
  "uniqueIndexField dm p =
     find (\<lambda>key. key \<in> set (tableLookup (uniqueIndexFieldsByModel dm) (model p)))
       (keys (orElse (get (args p) ''where'') (JObj [])))"

text \<open>The found key is tested for truthiness: the empty string does not count.\<close>

definition foundIndexField :: "DMMF_Model list \<Rightarrow> params \<Rightarrow> bool" where
  "foundIndexField dm p =
     (case uniqueIndexField dm p of None \<Rightarrow> False | Some key \<Rightarrow> key \<noteq> [])"

definition validateFindUniqueParams :: "DMMF_Model list \<Rightarrow> params \<Rightarrow> ModelConfig \<Rightarrow> error + unit" where
  "validateFindUniqueParams dm p config =
     (case uniqueIndexField dm p of
        None \<Rightarrow> Inr ()
      | Some key \<Rightarrow>
          if key \<noteq> [] \<and> \<not> allowCompoundUniqueIndexWhere config
          then Inl (CompoundUniqueIndexQuery (model p) key)
          else Inr ())"

definition shouldPassFindUniqueParamsThrough :: "DMMF_Model list \<Rightarrow> params \<Rightarrow> ModelConfig \<Rightarrow> bool" where
  "shouldPassFindUniqueParamsThrough dm p config =
     (let uniqueFields = tableLookup (uniqueFieldsByModel dm) (model p);
          uniqueIndexFields = tableLookup (uniqueIndexFieldsByModel dm) (model p);
          where = get (args p) ''where''
      in \<not> truthy where
         \<or> \<not> typeofObject where
         \<or> \<not> list_ex (\<lambda>(key, val).
               (key \<in> set uniqueFields \<or> key \<in> set uniqueIndexFields) \<and> val \<noteq> JUndefined)
             (props where)
         \<or> (foundIndexField dm p \<and> allowCompoundUniqueIndexWhere config))"

text \<open>
  \<open>{ ...params.args, where, ...(isEmptyObject(include) ? {} : { include }) }\<close>, which the
  five find rules build after \<open>getWhere\<close> and \<open>getInclude\<close>.
\<close>

definition findArgs :: "ModelConfig \<Rightarrow> params \<Rightarrow> error + jsval" where
  "findArgs config p =
     bindE (getWhere config p) (\<lambda>where.
     bindE (getInclude config p) (\<lambda>include.
     bindE (isEmptyObject include) (\<lambda>empty.
       Inr (if empty then spreadSet (args p) ''where'' where
            else spreadSet (spreadSet (args p) ''where'' where) ''include'' include))))"

definition createFindUniqueParams :: "DMMF_Model list \<Rightarrow> ModelConfig \<Rightarrow> params \<Rightarrow> error + CreateParamsReturn" where
  "createFindUniqueParams dm config p =
     (if shouldPassFindUniqueParamsThrough dm p config then Inr (p, None)
      else
        bindE (validateFindUniqueParams dm p config) (\<lambda>u.
        bindE (findArgs config p) (\<lambda>a.
          Inr (withOperationArgs p ''findFirst'' a, None))))"

definition createFindUniqueOrThrowParams :: "DMMF_Model list \<Rightarrow> ModelConfig \<Rightarrow> params \<Rightarrow> error + CreateParamsReturn" where
  "createFindUniqueOrThrowParams dm config p =
     (if shouldPassFindUniqueParamsThrough dm p config then Inr (p, None)
      else
        bindE (validateFindUniqueParams dm p config) (\<lambda>u.
        bindE (findArgs config p) (\<lambda>a.
          Inr (withOperationArgs p ''findFirstOrThrow'' a, None))))"

definition createFindFirstParams :: "ModelConfig \<Rightarrow> params \<Rightarrow> error + CreateParamsReturn" where
  "createFindFirstParams config p =
     bindE (findArgs config p) (\<lambda>a. Inr (withOperationArgs p ''findFirst'' a, None))"

definition createFindFirstOrThrowParams :: "ModelConfig \<Rightarrow> params \<Rightarrow> error + CreateParamsReturn" where
  "createFindFirstOrThrowParams config p =
     bindE (findArgs config p) (\<lambda>a.
       Inr (withOperationArgs p ''findFirstOrThrow'' a, None))"

definition createFindManyParams :: "ModelConfig \<Rightarrow> params \<Rightarrow> error + CreateParamsReturn" where
  "createFindManyParams config p =
     bindE (findArgs config p) (\<lambda>a. Inr (withOperationArgs p ''findMany'' a, None))"

definition createGroupByParams :: "ModelConfig \<Rightarrow> params \<Rightarrow> error + CreateParamsReturn" where
  "createGroupByParams config p =
     bindE (getWhere config p) (\<lambda>where.
       Inr (withOperationArgs p ''groupBy'' (spreadSet (args p) ''where'' where), None))"

definition createCountParams :: "ModelConfig \<Rightarrow> params \<Rightarrow> error + CreateParamsReturn" where
  "createCountParams config p =
     bindE (getWhere config p) (\<lambda>where.
       Inr (withArgs p (spreadSet (orElse (args p) (JObj [])) ''where'' where), None))"

definition createAggregateParams :: "ModelConfig \<Rightarrow> params \<Rightarrow> error + CreateParamsReturn" where
  "createAggregateParams config p =
     bindE (getWhere config p) (\<lambda>where.
       Inr (withArgs p (spreadSet (orElse (args p) (JObj [])) ''where'' where), None))"

text \<open>The end of \<open>createWhereParams\<close>: the new-where transform of the arguments.\<close>

definition newWhereArgs :: "ModelConfig \<Rightarrow> params \<Rightarrow> error + CreateParamsReturn" where
  "newWhereArgs config p =
     bindE (getNewWhere config (args p)) (\<lambda>where. Inr (withArgs p (JObj (props where)), None))"

text \<open>
  \<open>params.args[config.field]\<close> is read without a guard, and only under the modifier
  \<open>every\<close>: there missing arguments are a \<open>TypeError\<close>.
\<close>

definition createWhereParams :: "ModelConfig \<Rightarrow> params \<Rightarrow> error + CreateParamsReturn" where
  "createWhereParams config p =
     (case scope p of
        None \<Rightarrow> Inr (p, None)
      | Some s \<Rightarrow>
          if modifier s = Some ''every'' then
            if args p = JUndefined \<or> args p = JNull then Inl TypeError
            else if \<not> truthy (get (args p) (fieldKey config)) then
              bindE (callCreateValue config False) (\<lambda>v.
                Inr (withArgs p
                       (JObj [(''OR'', JArr [JObj [(fieldKey config, JObj [(''not'', v)])],
                                            args p])]),
                     None))
            else newWhereArgs config p
          else newWhereArgs config p)"

text \<open>
  \<open>addDeletedToSelect\<close> of utils/nestedReads is a parameter of \<open>createSelectParams\<close>.
\<close>

definition createSelectParams ::
  "(params \<Rightarrow> ModelConfig \<Rightarrow> params) \<Rightarrow> ModelConfig \<Rightarrow> params \<Rightarrow> error + CreateParamsReturn" where
  "createSelectParams addDeletedToSelect config p =
     (if (case scope p of None \<Rightarrow> False | Some s \<Rightarrow> operation (parentParams s) = ''include'')
      then Inr (p, None)
      else if throughToOne p \<noteq> None then
        if truthy (get (args p) ''select'')
           \<and> \<not> truthy (get (get (args p) ''select'') (fieldKey config))
        then Inr (addDeletedToSelect p config, Some \<lparr> deletedFieldAdded = True \<rparr>)
        else Inr (p, None)
      else
        bindE (getWhere config p) (\<lambda>where.
          Inr (withArgs p (spreadSet (args p) ''where'' where), None)))"

section \<open>Construction (createSoftDeleteExtension.ts)\<close>

text \<open>
  A model is configured by \<open>true\<close>, \<open>false\<close> or a configuration object of its own.
\<close>

datatype ModelEntry = Flag bool | Override ModelConfig

record Config =
  models :: "(string \<times> ModelEntry) list"
  defaultConfig :: "ModelConfig option"

text \<open>The default of the parameter \<open>defaultConfig\<close>; \<open>Boolean\<close> on a boolean is the boolean.\<close>

definition builtinDefaultConfig :: ModelConfig where
  "builtinDefaultConfig =
     \<lparr> field = Some ''deleted'', createValue = Some JBool, allowToOneUpdates = False,
       allowCompoundUniqueIndexWhere = False, queryOption = Some OptExcept,
       nestModels = Some [], forceDelete = False \<rparr>"

text \<open>
  The configuration objects are mutated in place after construction, and every model
  configured by \<open>true\<close> is given the one object \<open>defaultConfig\<close>: those models share
  their flags. So the objects live in a store, and \<open>modelConfig\<close> maps a model to the
  address of its object: \<open>DefaultObject\<close> for the shared default, \<open>ModelObject m\<close> for
  the object passed for model \<open>m\<close> (the caller is taken to pass distinct objects).
  The state also carries the underlying database and the calls issued to the
  underlying client, in order.
\<close>

datatype ConfigRef = DefaultObject | ModelObject string

record 'db State =
  objects :: "ConfigRef \<Rightarrow> ModelConfig option"
  modelConfig :: "string \<Rightarrow> ConfigRef option"
  database :: 'db
  issued :: "(string \<times> string \<times> jsval) list"

text \<open>The body of \<open>modelNames.forEach\<close>, on \<open>modelConfig\<close> and the store.\<close>

definition registerModel ::
  "(string \<times> ModelEntry) list \<Rightarrow> string \<Rightarrow>
   (ConfigRef \<Rightarrow> ModelConfig option) \<times> (string \<Rightarrow> ConfigRef option) \<Rightarrow>
   (ConfigRef \<Rightarrow> ModelConfig option) \<times> (string \<Rightarrow> ConfigRef option)" where
  "registerModel ms modelName acc =
     (case map_of ms modelName of
        Some (Flag True) \<Rightarrow> (fst acc, (snd acc)(modelName \<mapsto> DefaultObject))
      | Some (Override config) \<Rightarrow>
          ((fst acc)(ModelObject modelName \<mapsto> config),
           (snd acc)(modelName \<mapsto> ModelObject modelName))
      | _ \<Rightarrow> acc)"

definition createSoftDeleteExtension :: "Config \<Rightarrow> 'db \<Rightarrow> error + 'db State" where
  "createSoftDeleteExtension c db =
     (let d = (case defaultConfig c of None \<Rightarrow> builtinDefaultConfig | Some x \<Rightarrow> x) in
      if field d = None \<or> field d = Some [] then Inl DefaultConfigFieldRequired
      else if createValue d = None then Inl DefaultConfigCreateValueRequired
      else
        let built = fold (registerModel (models c)) (map fst (models c))
                      (Map.empty(DefaultObject \<mapsto> d), Map.empty)
        in Inr \<lparr> objects = fst built, modelConfig = snd built, database = db, issued = [] \<rparr>)"

section \<open>The dispatcher\<close>

text \<open>
  What the extension is given from outside: the schema metadata, the underlying client
  (a call of an operation of a model with its arguments, which answers or rejects and may
  change the database), \<open>addDeletedToSelect\<close> of utils/nestedReads and
  \<open>modifyReadResult\<close> of helpers/modifyResult.
\<close>

record 'db Env =
  datamodel :: "DMMF_Model list"
  client :: "'db \<Rightarrow> string \<Rightarrow> string \<Rightarrow> jsval \<Rightarrow> (error + jsval) \<times> 'db"
  addDeletedToSelect :: "params \<Rightarrow> ModelConfig \<Rightarrow> params"
  modifyReadResult :: "ModelConfig \<Rightarrow> jsval \<Rightarrow> params \<Rightarrow> ctx option \<Rightarrow> jsval"

text \<open>The operations the extension defines on every model.\<close>

definition rootOperations :: "string list" where
  "rootOperations =
     [''delete'', ''deleteMany'', ''update'', ''updateMany'', ''upsert'', ''findFirst'',
      ''findFirstOrThrow'', ''findUnique'', ''findUniqueOrThrow'', ''findMany'', ''count'',
      ''aggregate'', ''groupBy'', ''create'']"

text \<open>The rules bound for a configured model, by operation.\<close>

definition createParamsByOperation ::
  "'db Env \<Rightarrow> string \<Rightarrow> (ModelConfig \<Rightarrow> params \<Rightarrow> error + CreateParamsReturn) option" where
  "createParamsByOperation env =
     map_of
       [(''delete'', createDeleteParams),
        (''deleteMany'', createDeleteManyParams),
        (''update'', createUpdateParams),
        (''updateMany'', createUpdateManyParams),
        (''upsert'', createUpsertParams),
        (''findFirst'', createFindFirstParams),
        (''findFirstOrThrow'', createFindFirstOrThrowParams),
        (''findUnique'', createFindUniqueParams (datamodel env)),
        (''findUniqueOrThrow'', createFindUniqueOrThrowParams (datamodel env)),
        (''findMany'', createFindManyParams),
        (''count'', createCountParams),
        (''aggregate'', createAggregateParams),
        (''where'', createWhereParams),
        (''select'', createSelectParams (addDeletedToSelect env)),
        (''groupBy'', createGroupByParams)]"

text \<open>The configuration object of a model, as it is now.\<close>

definition configOf :: "'db State \<Rightarrow> string \<Rightarrow> ModelConfig option" where
  "configOf s m = (case modelConfig s m of None \<Rightarrow> None | Some r \<Rightarrow> objects s r)"

text \<open>\<open>createParamsByModel[initialParams.model]?.[initialParams.operation]\<close>, bound.\<close>

definition createParamsLookup ::
  "'db Env \<Rightarrow> 'db State \<Rightarrow> params \<Rightarrow> (params \<Rightarrow> error + CreateParamsReturn) option" where
  "createParamsLookup env s p =
     (case model p of
        None \<Rightarrow> None
      | Some m \<Rightarrow>
          (case configOf s m of
             None \<Rightarrow> None
           | Some config \<Rightarrow>
               (case createParamsByOperation env (operation p) of
                  None \<Rightarrow> None
                | Some rule \<Rightarrow> Some (rule config))))"

text \<open>\<open>modifyResultByModel[params.model]?.[params.operation]\<close>, bound.\<close>

definition modifyResultLookup ::
  "'db Env \<Rightarrow> 'db State \<Rightarrow> params \<Rightarrow> (jsval \<Rightarrow> params \<Rightarrow> ctx option \<Rightarrow> jsval) option" where
  "modifyResultLookup env s p =
     (case model p of
        None \<Rightarrow> None
      | Some m \<Rightarrow>
          (case configOf s m of
             None \<Rightarrow> None
           | Some config \<Rightarrow>
               if operation p = ''include'' \<or> operation p = ''select''
               then Some (modifyReadResult env config) else None))"

text \<open>
  \<open>configModelName[0].toLowerCase() + configModelName.slice(1)\<close>; a model name is not
  empty.
\<close>

fun uncapitalize :: "string \<Rightarrow> string" where
  "uncapitalize [] = []"
| "uncapitalize (c # cs) = toLowerChar c # cs"

text \<open>A call of the underlying client: \<open>client[modelName][operation](args)\<close>.\<close>

definition callClient ::
  "'db Env \<Rightarrow> string \<Rightarrow> string \<Rightarrow> jsval \<Rightarrow> 'db State \<Rightarrow> (error + jsval) \<times> 'db State" where
  "callClient env modelName op a s =
     (case client env (database s) modelName op a of
        (r, db) \<Rightarrow> (r, s\<lparr> database := db, issued := issued s @ [(modelName, op, a)] \<rparr>))"

text \<open>
  The three assignments after the call of the client. Writing to the configuration of a
  model that has none is a \<open>TypeError\<close>.
\<close>

definition resetConfig :: "string \<Rightarrow> 'db State \<Rightarrow> error + 'db State" where
  "resetConfig configModelName s =
     (case modelConfig s configModelName of
        None \<Rightarrow> Inl TypeError
      | Some r \<Rightarrow>
          (case objects s r of
             None \<Rightarrow> Inl TypeError
           | Some config \<Rightarrow>
               Inr (s\<lparr> objects := (objects s)(r \<mapsto>
                      config\<lparr> forceDelete := False, nestModels := Some [],
                              queryOption := Some OptExcept \<rparr>) \<rparr>)))"

text \<open>
  \<open>$rootOperation\<close> of the method of model \<open>configModelName\<close>. The walker of the nested
  operations is outside this repository: the handler is modelled on the parameters it
  is given.
\<close>

definition rootOperation ::
  "'db Env \<Rightarrow> string \<Rightarrow> params \<Rightarrow> 'db State \<Rightarrow> (error + jsval) \<times> 'db State" where
  "rootOperation env configModelName initialParams s =
     (case createParamsLookup env s initialParams of
        None \<Rightarrow>
          callClient env (uncapitalize configModelName) (operation initialParams)
            (args initialParams) s
      | Some createParams \<Rightarrow>
          (case createParams initialParams of
             Inl e \<Rightarrow> (Inl e, s)
           | Inr (params, ctx) \<Rightarrow>
               (case callClient env (uncapitalize configModelName) (operation params)
                       (args params) s of
                  (Inl e, s1) \<Rightarrow> (Inl e, s1)
                | (Inr result, s1) \<Rightarrow>
                    (case resetConfig configModelName s1 of
                       Inl e \<Rightarrow> (Inl e, s1)
                     | Inr s2 \<Rightarrow>
                         (case modifyResultLookup env s2 params of
                            None \<Rightarrow> (Inr result, s2)
                          | Some modifyResult \<Rightarrow> (Inr (modifyResult result params ctx), s2))))))"

text \<open>
  \<open>$allNestedOperations\<close>. \<open>query\<close> continues the walk with the arguments and, when it
  is given one, the operation of the rewritten node; it is a parameter. The handler
  writes to no configuration object.
\<close>

definition allNestedOperations ::
  "'db Env \<Rightarrow> ('db State \<Rightarrow> jsval \<Rightarrow> string option \<Rightarrow> (error + jsval) \<times> 'db State) \<Rightarrow>
   params \<Rightarrow> 'db State \<Rightarrow> (error + jsval) \<times> 'db State" where
  "allNestedOperations env query initialParams s =
     (case createParamsLookup env s initialParams of
        None \<Rightarrow> query s (args initialParams) None
      | Some createParams \<Rightarrow>
          (case createParams initialParams of
             Inl e \<Rightarrow> (Inl e, s)
           | Inr (params, ctx) \<Rightarrow>
               (case query s (args params) (Some (operation params)) of
                  (Inl e, s1) \<Rightarrow> (Inl e, s1)
                | (Inr result, s1) \<Rightarrow>
                    (case modifyResultLookup env s1 params of
                       None \<Rightarrow> (Inr result, s1)
                     | Some modifyResult \<Rightarrow> (Inr (modifyResult result params ctx), s1)))))"

text \<open>
  A method \<open>client.model[operation](args)\<close> of the extended client, for a model of the
  schema: the extension defines the operations of \<open>rootOperations\<close>, any other goes to
  the underlying client as it is.
\<close>

definition modelMethod ::
  "'db Env \<Rightarrow> string \<Rightarrow> string \<Rightarrow> jsval \<Rightarrow> 'db State \<Rightarrow> (error + jsval) \<times> 'db State" where
  "modelMethod env configModelName op a s =
     (if op \<in> set rootOperations
      then rootOperation env configModelName (Params (Some configModelName) op a None) s
      else callClient env (uncapitalize configModelName) op a s)"

text \<open>
  The methods added to every model. Each writes to the configuration object of the
  model; \<open>forceDelete\<close> then calls \<open>deleteMany\<close> of the extended model.
\<close>

definition setConfig ::
  "string \<Rightarrow> (ModelConfig \<Rightarrow> ModelConfig) \<Rightarrow> 'db State \<Rightarrow> error + 'db State" where
  "setConfig modelName f s =
     (case modelConfig s modelName of
        None \<Rightarrow> Inl TypeError
      | Some r \<Rightarrow>
          (case objects s r of
             None \<Rightarrow> Inl TypeError
           | Some config \<Rightarrow> Inr (s\<lparr> objects := (objects s)(r \<mapsto> f config) \<rparr>)))"

definition forceDeleteMethod ::
  "'db Env \<Rightarrow> string \<Rightarrow> jsval \<Rightarrow> 'db State \<Rightarrow> (error + jsval) \<times> 'db State" where
  "forceDeleteMethod env modelName a s =
     (let where = orElse (get a ''where'') (JObj []) in
      case setConfig modelName (\<lambda>config. config\<lparr> forceDelete := True \<rparr>) s of
        Inl e \<Rightarrow> (Inl e, s)
      | Inr s1 \<Rightarrow> modelMethod env modelName ''deleteMany'' (JObj [(''where'', where)]) s1)"

definition withTrashed :: "string \<Rightarrow> 'db State \<Rightarrow> error + 'db State" where
  "withTrashed modelName s =
     setConfig modelName (\<lambda>config. config\<lparr> queryOption := Some OptAll \<rparr>) s"

definition onlyTrashed :: "string \<Rightarrow> 'db State \<Rightarrow> error + 'db State" where
  "onlyTrashed modelName s =
     setConfig modelName (\<lambda>config. config\<lparr> queryOption := Some OptOnly \<rparr>) s"

section \<open>Example inputs\<close>

text \<open>
  A schema with a model \<open>User\<close> (id, a unique \<open>email\<close>, a compound unique index on
  \<open>name\<close> and \<open>email\<close>) and a model \<open>Post\<close>; an underlying client that answers every
  call with \<open>null\<close> and one that rejects every call (the two helpers from outside
  leave their argument as it is); an extension with both models configured by \<open>true\<close>.
\<close>

definition exampleDatamodel :: "DMMF_Model list" where
  "exampleDatamodel =
     [\<lparr> model_name = ''User'', uniqueFields = [[''name'', ''email'']],
        model_fields = [\<lparr> field_name = ''id'', isId = True, isUnique = False \<rparr>,
                        \<lparr> field_name = ''email'', isId = False, isUnique = True \<rparr>,
                        \<lparr> field_name = ''name'', isId = False, isUnique = False \<rparr>] \<rparr>,
      \<lparr> model_name = ''Post'', uniqueFields = [],
        model_fields = [\<lparr> field_name = ''id'', isId = True, isUnique = False \<rparr>] \<rparr>]"

definition answeringEnv :: "unit Env" where
  "answeringEnv =
     \<lparr> datamodel = exampleDatamodel,
       client = (\<lambda>db m op a. (Inr JNull, db)),
       addDeletedToSelect = (\<lambda>p config. p),
       modifyReadResult = (\<lambda>config result p c. result) \<rparr>"

definition rejectingEnv :: "unit Env" where
  "rejectingEnv =
     \<lparr> datamodel = exampleDatamodel,
       client = (\<lambda>db m op a. (Inl (ClientError ''rejected''), db)),
       addDeletedToSelect = (\<lambda>p config. p),
       modifyReadResult = (\<lambda>config result p c. result) \<rparr>"

definition exampleState :: "ModelConfig \<Rightarrow> unit State" where
  "exampleState config =
     \<lparr> objects = Map.empty(DefaultObject \<mapsto> config),
       modelConfig = Map.empty(''User'' \<mapsto> DefaultObject, ''Post'' \<mapsto> DefaultObject),
       database = (), issued = [] \<rparr>"

text \<open>A nested update of a user reached through the to-one relation \<open>author\<close> of a post.\<close>

definition authorUpdate :: params where
  "authorUpdate =
     Params (Some ''User'') ''update'' (JObj [(''data'', JObj [(''name'', JStr ''Ann'')])])
       (Some (Scope (Params (Some ''Post'') ''update'' JUndefined None)
                (Some \<lparr> to = \<lparr> name = ''author'', isList = False \<rparr> \<rparr>) None))"

text \<open>A \<open>where\<close> on the posts of a user, reached under the modifier \<open>every\<close>.\<close>

definition everyPosts :: params where
  "everyPosts =
     Params (Some ''Post'') ''where'' (JObj [(''title'', JStr ''x'')])
       (Some (Scope (Params (Some ''User'') ''findMany'' JUndefined None)
                (Some \<lparr> to = \<lparr> name = ''posts'', isList = True \<rparr> \<rparr>) (Some ''every'')))"

text \<open>A configuration object with neither \<open>field\<close> nor \<open>createValue\<close>.\<close>

definition bareOverride :: ModelConfig where
  "bareOverride =
     \<lparr> field = None, createValue = None, allowToOneUpdates = False,
       allowCompoundUniqueIndexWhere = False, queryOption = None, nestModels = None,
       forceDelete = False \<rparr>"

section \<open>Basic facts\<close>

lemma get_spreadSet_same: "get (spreadSet v k x) k = x"
  by (simp add: get_def spreadSet_def update_conv')

lemma get_spreadSet_other: "k' \<noteq> k \<Longrightarrow> get (spreadSet v k x) k' = get v k'"
  by (simp add: get_def spreadSet_def update_conv')

lemma props_falsy: "\<not> truthy v \<Longrightarrow> props v = []"
  by (cases v) simp_all

lemma get_orElse_empty: "get (orElse v (JObj [])) k = get v k"
  by (simp add: get_def orElse_def props_falsy)

lemma truthy_get_props: "truthy (get v k) \<Longrightarrow> \<exists>kvs. v = JObj kvs"
  by (cases v) (simp_all add: get_def)

lemma bindE_Inr: "bindE (Inr v) f = f v"
  by (simp add: bindE_def)

lemma bindE_Inl: "bindE (Inl e) f = Inl e"
  by (simp add: bindE_def)

lemma callCreateValue_Some: "createValue config = Some cv \<Longrightarrow> callCreateValue config b = Inr (cv b)"
  by (simp add: callCreateValue_def)

lemma getNewWhere_Some:
  "createValue config = Some cv \<Longrightarrow>
   getNewWhere config w =
     Inr (case queryOption config of
            Some OptAll \<Rightarrow> JObj (props w)
          | Some OptOnly \<Rightarrow> spreadSet w (fieldKey config) (JObj [(''not'', cv False)])
          | _ \<Rightarrow> spreadSet w (fieldKey config) (cv False))"
  by (simp add: getNewWhere_def callCreateValue_Some bindE_Inr split: option.splits TrashedOption.splits)

lemma spreadSet_orElse_empty: "spreadSet (orElse v (JObj [])) k x = spreadSet v k x"
  by (simp add: spreadSet_def orElse_def props_falsy)

lemma props_orElse_empty: "props (orElse v (JObj [])) = props v"
  by (simp add: orElse_def props_falsy)

section \<open>Facts about the read rules\<close>

lemma isEmptyObject_truthy: "truthy v \<Longrightarrow> \<exists>b. isEmptyObject v = Inr b"
  by (cases v) auto

lemma includeStep_object:
  assumes "createValue config = Some cv"
  shows "\<exists>kvs'. includeStep config p key relation (JObj kvs) = Inr (JObj kvs')"
  using assms
  by (simp add: includeStep_def Let_def callCreateValue_Some bindE_Inr spreadSet_def)

lemma forEach_includeStep_object:
  assumes "createValue config = Some cv"
  shows "\<exists>kvs'. forEachE (includeStep config p key) rs (JObj kvs) = Inr (JObj kvs')"
proof (induction rs arbitrary: kvs)
  case Nil
  then show ?case by simp
next
  case (Cons r rs)
  obtain kvs1 where "includeStep config p key r (JObj kvs) = Inr (JObj kvs1)"
    using includeStep_object [OF assms] by blast
  then show ?case using Cons.IH [of kvs1] by (simp add: bindE_Inr)
qed

lemma forEach_keys_object:
  assumes "createValue config = Some cv"
  shows "\<exists>kvs'. forEachE (\<lambda>key. forEachE (includeStep config p key) rs) ks (JObj kvs) =
           Inr (JObj kvs')"
proof (induction ks arbitrary: kvs)
  case Nil
  then show ?case by simp
next
  case (Cons k ks)
  obtain kvs1 where "forEachE (includeStep config p k) rs (JObj kvs) = Inr (JObj kvs1)"
    using forEach_includeStep_object [OF assms] by blast
  then show ?case using Cons.IH [of kvs1] by (simp add: bindE_Inr)
qed

lemma getInclude_total:
  assumes "createValue config = Some cv" and "nestModels config = Some nm"
  shows "\<exists>i b. getInclude config p = Inr i \<and> isEmptyObject i = Inr b"
proof (cases "nm = []")
  case True
  have "truthy (orElse (get (args p) ''include'') (JObj []))" by (simp add: orElse_def)
  then show ?thesis using True assms(2) isEmptyObject_truthy
    by (simp add: getInclude_def nestModelsVal_def bindE_Inr)
next
  case False
  obtain kvs' where
    "forEachE (\<lambda>key. forEachE (includeStep config p key)
                 (keys (orElse (get (args p) ''include'') (JObj []))))
       (keys (orElse (nestModelsVal config) (JObj []))) (JObj []) = Inr (JObj kvs')"
    using forEach_keys_object [OF assms(1)] by blast
  then show ?thesis using False assms(2)
    by (simp add: getInclude_def nestModelsVal_def bindE_Inr)
qed

lemma getWhere_except:
  assumes "queryOption config = None \<or> queryOption config = Some OptExcept"
    and "createValue config = Some cv"
    and "\<not> truthy (get (get (args p) ''where'') (fieldKey config))"
  shows "\<exists>w. getWhere config p = Inr w \<and> get w (fieldKey config) = cv False"
  using assms
  by (auto simp: getWhere_def Let_def get_orElse_empty callCreateValue_Some bindE_Inr
      get_spreadSet_same)

lemma findArgs_where:
  assumes "getWhere config p = Inr w"
    and "createValue config = Some cv" and "nestModels config = Some nm"
  shows "\<exists>a'. findArgs config p = Inr a' \<and> get a' ''where'' = w"
proof -
  obtain i b where "getInclude config p = Inr i" "isEmptyObject i = Inr b"
    using getInclude_total [OF assms(2) assms(3)] by blast
  then show ?thesis using assms(1)
    by (simp add: findArgs_def bindE_Inr get_spreadSet_same get_spreadSet_other)
qed

lemma uniqueIndexField_found:
  assumes "get (args p) ''where'' = JObj kvs"
    and "(k, v) \<in> set kvs"
    and "k \<in> set (tableLookup (uniqueIndexFieldsByModel dm) (model p))"
  shows "\<exists>k'. uniqueIndexField dm p = Some k'
           \<and> k' \<in> set (tableLookup (uniqueIndexFieldsByModel dm) (model p))
           \<and> k' \<in> fst ` set kvs"
proof -
  let ?P = "\<lambda>key. key \<in> set (tableLookup (uniqueIndexFieldsByModel dm) (model p))"
  have "k \<in> set (map fst kvs)" using assms(2) by force
  then have "find ?P (map fst kvs) \<noteq> None" using assms(3) by (auto simp: find_None_iff)
  then obtain k' where k': "find ?P (map fst kvs) = Some k'" by blast
  then have "?P k' \<and> k' \<in> set (map fst kvs)"
    by (auto simp: find_Some_iff)
  then show ?thesis using k' assms(1)
    by (simp add: uniqueIndexField_def keys_def orElse_def)
qed

lemma findUnique_rules_compound:
  assumes w: "get (args p) ''where'' = JObj kvs"
    and kv: "(k, v) \<in> set kvs"
    and v: "v \<noteq> JUndefined"
    and k: "k \<in> set (tableLookup (uniqueIndexFieldsByModel dm) (model p))"
    and ne: "[] \<notin> set (tableLookup (uniqueIndexFieldsByModel dm) (model p))"
  shows "\<exists>k'. k' \<in> set (tableLookup (uniqueIndexFieldsByModel dm) (model p))
     \<and> k' \<in> fst ` set kvs
     \<and> createFindUniqueParams dm config p =
         (if allowCompoundUniqueIndexWhere config then Inr (p, None)
          else Inl (CompoundUniqueIndexQuery (model p) k'))
     \<and> createFindUniqueOrThrowParams dm config p =
         (if allowCompoundUniqueIndexWhere config then Inr (p, None)
          else Inl (CompoundUniqueIndexQuery (model p) k'))"
proof -
  obtain k' where k': "uniqueIndexField dm p = Some k'"
    "k' \<in> set (tableLookup (uniqueIndexFieldsByModel dm) (model p))" "k' \<in> fst ` set kvs"
    using uniqueIndexField_found [OF w kv k] by blast
  have nz: "k' \<noteq> []" using k'(2) ne by auto
  have found: "foundIndexField dm p" using k'(1) nz by (simp add: foundIndexField_def)
  have some: "list_ex (\<lambda>(key, val).
               (key \<in> set (tableLookup (uniqueFieldsByModel dm) (model p))
                \<or> key \<in> set (tableLookup (uniqueIndexFieldsByModel dm) (model p)))
               \<and> val \<noteq> JUndefined) kvs"
    using kv v k by (auto simp: list_ex_iff)
  have pass: "shouldPassFindUniqueParamsThrough dm p config = allowCompoundUniqueIndexWhere config"
    using w some found by (simp add: shouldPassFindUniqueParamsThrough_def Let_def)
  have val: "\<not> allowCompoundUniqueIndexWhere config \<Longrightarrow>
      validateFindUniqueParams dm p config = Inl (CompoundUniqueIndexQuery (model p) k')"
    using k'(1) nz by (simp add: validateFindUniqueParams_def)
  show ?thesis
    using k'(2,3) pass val
    by (auto simp: createFindUniqueParams_def createFindUniqueOrThrowParams_def bindE_Inl)
qed

lemma find_rules_where:
  assumes "getWhere config p = Inr w"
    and "createValue config = Some cv" and "nestModels config = Some nm"
  shows "\<exists>a'. createFindFirstParams config p = Inr (withOperationArgs p ''findFirst'' a', None)
            \<and> createFindFirstOrThrowParams config p =
                Inr (withOperationArgs p ''findFirstOrThrow'' a', None)
            \<and> createFindManyParams config p = Inr (withOperationArgs p ''findMany'' a', None)
            \<and> findArgs config p = Inr a'
            \<and> get a' ''where'' = w"
proof -
  obtain a' where "findArgs config p = Inr a'" "get a' ''where'' = w"
    using findArgs_where [OF assms] by blast
  then show ?thesis
    by (simp add: createFindFirstParams_def createFindFirstOrThrowParams_def
        createFindManyParams_def bindE_Inr)
qed

lemma findUnique_rules_where:
  assumes "getWhere config p = Inr w"
    and "createValue config = Some cv" and "nestModels config = Some nm"
    and "\<not> shouldPassFindUniqueParamsThrough dm p config"
    and "\<not> foundIndexField dm p"
  shows "\<exists>a'. createFindUniqueParams dm config p = Inr (withOperationArgs p ''findFirst'' a', None)
            \<and> createFindUniqueOrThrowParams dm config p =
                Inr (withOperationArgs p ''findFirstOrThrow'' a', None)
            \<and> get a' ''where'' = w"
proof -
  obtain a' where "findArgs config p = Inr a'" "get a' ''where'' = w"
    using findArgs_where [OF assms(1-3)] by blast
  moreover have "validateFindUniqueParams dm p config = Inr ()"
    using assms(5)
    by (auto simp: validateFindUniqueParams_def foundIndexField_def split: option.splits)
  ultimately show ?thesis using assms(4)
    by (auto simp: createFindUniqueParams_def createFindUniqueOrThrowParams_def bindE_Inr)
qed

lemma count_rules_where:
  assumes "getWhere config p = Inr w"
  shows "createCountParams config p =
           Inr (withArgs p (spreadSet (orElse (args p) (JObj [])) ''where'' w), None)
       \<and> createAggregateParams config p =
           Inr (withArgs p (spreadSet (orElse (args p) (JObj [])) ''where'' w), None)
       \<and> createGroupByParams config p =
           Inr (withOperationArgs p ''groupBy'' (spreadSet (args p) ''where'' w), None)"
  using assms
  by (simp add: createCountParams_def createAggregateParams_def createGroupByParams_def bindE_Inr)

lemma findArgs_include_unchanged:
  assumes "nestModels config = Some []" and "getWhere config p = Inr w"
  shows "\<exists>a'. findArgs config p = Inr a' \<and> get a' ''include'' = get (args p) ''include''"
proof (cases "truthy (get (args p) ''include'')")
  case True
  then obtain b where "isEmptyObject (get (args p) ''include'') = Inr b"
    using isEmptyObject_truthy by blast
  then show ?thesis using True assms
    by (simp add: findArgs_def getInclude_def nestModelsVal_def bindE_Inr orElse_def
        get_spreadSet_same get_spreadSet_other)
next
  case False
  then show ?thesis using assms
    by (simp add: findArgs_def getInclude_def nestModelsVal_def bindE_Inr orElse_def
        get_spreadSet_other)
qed

section \<open>Facts about the dispatcher\<close>

lemma issued_callClient:
  "issued (snd (callClient env m op a s)) = issued s @ [(m, op, a)]"
  by (simp add: callClient_def split: prod.splits)

lemma objects_callClient:
  "objects (snd (callClient env m op a s)) = objects s"
  by (simp add: callClient_def split: prod.splits)

lemma modelConfig_callClient:
  "modelConfig (snd (callClient env m op a s)) = modelConfig s"
  by (simp add: callClient_def split: prod.splits)

lemma issued_resetConfig: "resetConfig m s = Inr s' \<Longrightarrow> issued s' = issued s"
  by (auto simp: resetConfig_def split: option.splits)

lemma createParamsLookup_rule:
  assumes "configOf s m = Some config"
    and "createParamsByOperation env op = Some rule"
  shows "createParamsLookup env s (Params (Some m) op a sc) = Some (rule config)"
  using assms by (simp add: createParamsLookup_def)

lemma issued_rootOperation_rule:
  assumes "createParamsLookup env s p = Some rule"
    and "rule p = Inr (p', c)"
  shows "issued (snd (rootOperation env m p s)) = issued s @ [(uncapitalize m, operation p', args p')]"
proof -
  obtain r s1 where cc: "callClient env (uncapitalize m) (operation p') (args p') s = (r, s1)"
    by (cases "callClient env (uncapitalize m) (operation p') (args p') s")
  then have i1: "issued s1 = issued s @ [(uncapitalize m, operation p', args p')]"
    using issued_callClient [of env "uncapitalize m" "operation p'" "args p'" s] by simp
  show ?thesis
    using assms cc i1
    by (auto simp: rootOperation_def split: sum.splits option.splits dest: issued_resetConfig)
qed

lemma configOf_setConfig:
  assumes "configOf s m = Some config"
  shows "\<exists>s1. setConfig m f s = Inr s1 \<and> configOf s1 m = Some (f config)
           \<and> issued s1 = issued s \<and> database s1 = database s \<and> modelConfig s1 = modelConfig s"
  using assms by (auto simp: configOf_def setConfig_def split: option.splits)

lemma rule_delete: "createParamsByOperation env ''delete'' = Some createDeleteParams"
  by (simp add: createParamsByOperation_def)

lemma rule_deleteMany: "createParamsByOperation env ''deleteMany'' = Some createDeleteManyParams"
  by (simp add: createParamsByOperation_def)

lemma rootOperation_rule_fails:
  assumes "createParamsLookup env s p = Some rule"
    and "rule p = Inl e"
  shows "rootOperation env m p s = (Inl e, s)"
  using assms by (simp add: rootOperation_def)

lemma configOf_resetConfig:
  assumes "configOf s m = Some config"
  shows "\<exists>s'. resetConfig m s = Inr s'
     \<and> configOf s' m =
         Some (config\<lparr> forceDelete := False, nestModels := Some [], queryOption := Some OptExcept \<rparr>)"
  using assms by (auto simp: configOf_def resetConfig_def split: option.splits)

lemma configOf_callClient: "configOf (snd (callClient env m' op a s)) m = configOf s m"
  by (simp add: configOf_def objects_callClient modelConfig_callClient split: option.splits)

lemma rootOperation_rule_succeeds:
  assumes look: "createParamsLookup env s p = Some rule"
    and rule: "rule p = Inr (p', c)"
    and cfg: "configOf s m = Some config"
    and cl: "client env (database s) (uncapitalize m) (operation p') (args p') = (r, db)"
  shows "case r of
           Inl e \<Rightarrow>
             fst (rootOperation env m p s) = Inl e
             \<and> objects (snd (rootOperation env m p s)) = objects s
         | Inr result \<Rightarrow>
             configOf (snd (rootOperation env m p s)) m =
               Some (config\<lparr> forceDelete := False, nestModels := Some [],
                             queryOption := Some OptExcept \<rparr>)"
proof -
  let ?s1 = "s\<lparr> database := db,
                 issued := issued s @ [(uncapitalize m, operation p', args p')] \<rparr>"
  have cc: "callClient env (uncapitalize m) (operation p') (args p') s = (r, ?s1)"
    using cl by (simp add: callClient_def)
  have c1: "configOf ?s1 m = Some config"
    using cfg by (simp add: configOf_def split: option.splits)
  show ?thesis
  proof (cases r)
    case (Inl e)
    then show ?thesis using look rule cc by (simp add: rootOperation_def)
  next
    case (Inr result)
    obtain s2 where s2: "resetConfig m ?s1 = Inr s2"
      "configOf s2 m =
         Some (config\<lparr> forceDelete := False, nestModels := Some [], queryOption := Some OptExcept \<rparr>)"
      using configOf_resetConfig [OF c1] by blast
    then show ?thesis using Inr look rule cc
      by (simp add: rootOperation_def split: option.splits)
  qed
qed

lemma objects_allNestedOperations:
  assumes "\<And>s a op. objects (snd (query s a op)) = objects s"
  shows "objects (snd (allNestedOperations env query p s)) = objects s"
proof (cases "createParamsLookup env s p")
  case None
  then show ?thesis using assms by (simp add: allNestedOperations_def)
next
  case (Some createParams)
  show ?thesis
  proof (cases "createParams p")
    case (Inl e)
    then show ?thesis using Some by (simp add: allNestedOperations_def)
  next
    case (Inr pc)
    obtain p' c where pc: "pc = (p', c)" by (cases pc)
    obtain r s1 where q: "query s (args p') (Some (operation p')) = (r, s1)"
      by (cases "query s (args p') (Some (operation p'))")
    then have "objects s1 = objects s"
      using assms [of s "args p'" "Some (operation p')"] by simp
    then show ?thesis using Some Inr pc q
      by (simp add: allNestedOperations_def split: sum.splits option.splits)
  qed
qed

lemma rule_findUnique:
  "createParamsByOperation env ''findUnique'' = Some (createFindUniqueParams (datamodel env))"
  "createParamsByOperation env ''findUniqueOrThrow'' =
     Some (createFindUniqueOrThrowParams (datamodel env))"
  by (simp_all add: createParamsByOperation_def)

lemma rule_reads:
  "createParamsByOperation env ''findFirst'' = Some createFindFirstParams"
  "createParamsByOperation env ''findFirstOrThrow'' = Some createFindFirstOrThrowParams"
  "createParamsByOperation env ''findMany'' = Some createFindManyParams"
  "createParamsByOperation env ''count'' = Some createCountParams"
  "createParamsByOperation env ''aggregate'' = Some createAggregateParams"
  "createParamsByOperation env ''groupBy'' = Some createGroupByParams"
  by (simp_all add: createParamsByOperation_def)

lemma reads_are_rootOperations:
  "set [''findFirst'', ''findFirstOrThrow'', ''findUnique'', ''findUniqueOrThrow'',
        ''findMany'', ''count'', ''aggregate'', ''groupBy''] \<subseteq> set rootOperations"
  by (simp add: rootOperations_def)

section \<open>Updates through a to-one relation\<close>

text \<open>
  C6. A nested update reached through a to-one relation (a scope with a relation that
  is not a list) whose arguments do not carry a truthy \<open>__passUpdateThrough\<close>: the rule
  throws the error naming the model, the parent model and the relation when
  \<open>allowToOneUpdates\<close> is off, and returns the parameters as they are when it is on.
\<close>

theorem createUpdateParams_toOne:
  assumes "scope p = Some s"
    and "relations s = Some r"
    and "\<not> isList (to r)"
    and "\<not> truthy (get (args p) ''__passUpdateThrough'')"
  shows "createUpdateParams config p =
           (if allowToOneUpdates config then Inr (p, None)
            else Inl (UpdateThroughToOne (model p) (model (parentParams s)) (name (to r))))"
  using assms
  by (simp add: createUpdateParams_def throughToOne_def parentModel_def
      removePassUpdateThrough_def)

theorem createUpdateParams_toOne_witness:
  "createUpdateParams builtinDefaultConfig authorUpdate =
     Inl (UpdateThroughToOne (Some ''User'') (Some ''Post'') ''author'')
   \<and> createUpdateParams (builtinDefaultConfig\<lparr> allowToOneUpdates := True \<rparr>) authorUpdate =
     Inr (authorUpdate, None)"
  using createUpdateParams_toOne [of authorUpdate
      "Scope (Params (Some ''Post'') ''update'' JUndefined None)
         (Some \<lparr> to = \<lparr> name = ''author'', isList = False \<rparr> \<rparr>) None"
      "\<lparr> to = \<lparr> name = ''author'', isList = False \<rparr> \<rparr>" builtinDefaultConfig]
    createUpdateParams_toOne [of authorUpdate
      "Scope (Params (Some ''Post'') ''update'' JUndefined None)
         (Some \<lparr> to = \<lparr> name = ''author'', isList = False \<rparr> \<rparr>) None"
      "\<lparr> to = \<lparr> name = ''author'', isList = False \<rparr> \<rparr>"
      "builtinDefaultConfig\<lparr> allowToOneUpdates := True \<rparr>"]
  by (simp add: authorUpdate_def builtinDefaultConfig_def get_def)

section \<open>Deletes\<close>

lemma createDeleteParams_where:
  assumes "m \<noteq> []" and "createValue config = Some cv" and "truthy (get a ''where'')"
  shows "createDeleteParams config (Params (Some m) ''delete'' a sc) =
     (case getNewWhere config (get a ''where'') of
        Inl e \<Rightarrow> Inl e
      | Inr w \<Rightarrow> Inr (Params (Some m) (if forceDelete config then ''delete'' else ''update'')
          (JObj [(''where'', w), (''data'', JObj [(fieldKey config, cv True)])]) sc, None))"
proof -
  from assms(3) obtain kvs where "a = JObj kvs" using truthy_get_props by blast
  then show ?thesis using assms
    by (simp add: createDeleteParams_def noModel_def orElse_def callCreateValue_Some bindE_def
        withOperationArgs_def split: sum.splits)
qed

text \<open>
  C2. A root \<open>delete\<close> on a configured model (its name is not empty) whose arguments
  have a \<open>where\<close>, with \<open>forceDelete\<close> off: the rule turns it into an \<open>update\<close> whose
  \<open>data\<close> sets the configured field to \<open>createValue(true)\<close> and whose \<open>where\<close> is the
  new-where transform of the caller's, and the dispatcher issues exactly that one call
  to the underlying client: no \<open>delete\<close> is issued.
\<close>

theorem root_delete_becomes_update:
  assumes "configOf s m = Some config"
    and "m \<noteq> []"
    and "\<not> forceDelete config"
    and "createValue config = Some cv"
    and "truthy (get a ''where'')"
  shows "\<exists>w. getNewWhere config (get a ''where'') = Inr w
     \<and> createDeleteParams config (Params (Some m) ''delete'' a None) =
         Inr (Params (Some m) ''update''
                (JObj [(''where'', w), (''data'', JObj [(fieldKey config, cv True)])]) None, None)
     \<and> issued (snd (modelMethod env m ''delete'' a s)) =
         issued s @ [(uncapitalize m, ''update'',
                      JObj [(''where'', w), (''data'', JObj [(fieldKey config, cv True)])])]"
proof -
  obtain w where w: "getNewWhere config (get a ''where'') = Inr w"
    using getNewWhere_Some [OF assms(4)] by blast
  have rule: "createDeleteParams config (Params (Some m) ''delete'' a None) =
         Inr (Params (Some m) ''update''
                (JObj [(''where'', w), (''data'', JObj [(fieldKey config, cv True)])]) None, None)"
    using createDeleteParams_where [OF assms(2) assms(4) assms(5), of None] w assms(3) by simp
  have "issued (snd (rootOperation env m (Params (Some m) ''delete'' a None) s)) =
         issued s @ [(uncapitalize m, ''update'',
                      JObj [(''where'', w), (''data'', JObj [(fieldKey config, cv True)])])]"
    using issued_rootOperation_rule [OF createParamsLookup_rule [OF assms(1) rule_delete] rule]
    by simp
  then show ?thesis using w rule by (simp add: modelMethod_def rootOperations_def)
qed

theorem root_delete_becomes_update_witness:
  "issued (snd (modelMethod answeringEnv ''User'' ''delete''
      (JObj [(''where'', JObj [(''id'', JNum 1)])]) (exampleState builtinDefaultConfig))) =
     [(''user'', ''update'',
       JObj [(''where'', JObj [(''id'', JNum 1), (''deleted'', JBool False)]),
             (''data'', JObj [(''deleted'', JBool True)])])]"
  using root_delete_becomes_update [of "exampleState builtinDefaultConfig" "''User''"
      builtinDefaultConfig JBool "JObj [(''where'', JObj [(''id'', JNum 1)])]" answeringEnv]
  by (simp add: exampleState_def builtinDefaultConfig_def configOf_def get_def getNewWhere_def
      callCreateValue_def bindE_def spreadSet_def fieldKey_def toLowerChar_def)

text \<open>
  C9, as the code has it. A \<open>delete\<close> that the guards do not pass through, with
  \<open>forceDelete\<close> on: the rule succeeds, the operation stays \<open>delete\<close> on the same model
  and scope, and for arguments that are not the boolean shorthand the \<open>where\<close> of the
  result is the new-where transform of the caller's \<open>where\<close> (or of the arguments
  themselves when they have none), as for \<open>deleteMany\<close>.
\<close>

theorem createDeleteParams_forceDelete:
  assumes "forceDelete config"
    and "createValue config = Some cv"
    and "\<not> noModel p"
    and "\<not> (isBoolean (args p) \<and> \<not> truthy (args p))"
    and "\<not> (scope p = None \<and> \<not> truthy (get (args p) ''where''))"
  shows "\<exists>p'. createDeleteParams config p = Inr (p', None)
     \<and> operation p' = ''delete'' \<and> model p' = model p \<and> scope p' = scope p
     \<and> (\<not> isBoolean (args p) \<longrightarrow>
          Inr (get (args p') ''where'') =
            getNewWhere config (orElse (get (args p) ''where'') (args p)))"
  using assms getNewWhere_Some [OF assms(2), of "orElse (get (args p) ''where'') (args p)"]
  by (auto simp: createDeleteParams_def callCreateValue_Some bindE_Inr withOperationArgs_def
      get_def)

theorem createDeleteParams_forceDelete_witness:
  "\<exists>p'. createDeleteParams (builtinDefaultConfig\<lparr> forceDelete := True, queryOption := Some OptAll \<rparr>)
           (Params (Some ''User'') ''delete'' (JObj [(''where'', JObj [(''id'', JNum 1)])]) None) =
         Inr (p', None)
     \<and> operation p' = ''delete'' \<and> get (args p') ''where'' = JObj [(''id'', JNum 1)]"
  using createDeleteParams_forceDelete [of
      "builtinDefaultConfig\<lparr> forceDelete := True, queryOption := Some OptAll \<rparr>" JBool
      "Params (Some ''User'') ''delete'' (JObj [(''where'', JObj [(''id'', JNum 1)])]) None"]
  by (auto simp: builtinDefaultConfig_def noModel_def get_def getNewWhere_def orElse_def)

text \<open>
  The arguments do not pass through unchanged: with the default configuration and
  \<open>forceDelete\<close> on, the \<open>where\<close> of a root delete gains the field and a \<open>data\<close> is added.
\<close>

theorem createDeleteParams_forceDelete_counterexample:
  "createDeleteParams (builtinDefaultConfig\<lparr> forceDelete := True \<rparr>)
     (Params (Some ''User'') ''delete'' (JObj [(''where'', JObj [(''id'', JNum 1)])]) None) =
   Inr (Params (Some ''User'') ''delete''
          (JObj [(''where'', JObj [(''id'', JNum 1), (''deleted'', JBool False)]),
                 (''data'', JObj [(''deleted'', JBool True)])]) None, None)
   \<and> createDeleteParams (builtinDefaultConfig\<lparr> forceDelete := True \<rparr>)
     (Params (Some ''User'') ''delete'' (JObj [(''where'', JObj [(''id'', JNum 1)])]) None) \<noteq>
   Inr (Params (Some ''User'') ''delete'' (JObj [(''where'', JObj [(''id'', JNum 1)])]) None, None)"
  by (simp add: createDeleteParams_def builtinDefaultConfig_def noModel_def get_def
      getNewWhere_def orElse_def callCreateValue_def bindE_def spreadSet_def fieldKey_def
      withOperationArgs_def)

section \<open>The method forceDelete\<close>

text \<open>
  C3, as the code has it. On a configured model, \<open>forceDelete(args)\<close> issues exactly one
  call to the underlying client, a \<open>deleteMany\<close>, whose \<open>where\<close> is the new-where
  transform of the caller's \<open>where\<close> under the visibility mode of the model at the call:
  a copy of it under \<open>all\<close>, with the field required to differ from \<open>createValue(false)\<close>
  under \<open>only\<close>, and with the field set to \<open>createValue(false)\<close> otherwise.
\<close>

theorem forceDelete_issues_deleteMany:
  assumes "configOf s m = Some config"
    and "m \<noteq> []"
    and "createValue config = Some cv"
  shows "issued (snd (forceDeleteMethod env m a s)) =
     issued s @ [(uncapitalize m, ''deleteMany'',
       JObj [(''where'',
         (case queryOption config of
            Some OptAll \<Rightarrow> JObj (props (get a ''where''))
          | Some OptOnly \<Rightarrow>
              spreadSet (get a ''where'') (fieldKey config) (JObj [(''not'', cv False)])
          | _ \<Rightarrow> spreadSet (get a ''where'') (fieldKey config) (cv False)))])]"
proof -
  let ?f = "\<lambda>config. config\<lparr> forceDelete := True \<rparr>"
  let ?wh = "orElse (get a ''where'') (JObj [])"
  let ?p = "Params (Some m) ''deleteMany'' (JObj [(''where'', ?wh)]) None"
  obtain s1 where s1: "setConfig m ?f s = Inr s1" "configOf s1 m = Some (?f config)"
    "issued s1 = issued s"
    using configOf_setConfig [OF assms(1), of ?f] by blast
  have t: "truthy ?wh" by (simp add: orElse_def)
  let ?w = "(case queryOption config of
            Some OptAll \<Rightarrow> JObj (props (get a ''where''))
          | Some OptOnly \<Rightarrow>
              spreadSet (get a ''where'') (fieldKey config) (JObj [(''not'', cv False)])
          | _ \<Rightarrow> spreadSet (get a ''where'') (fieldKey config) (cv False))"
  have w: "getNewWhere (?f config) ?wh = Inr ?w"
    using assms(3)
    by (simp add: getNewWhere_def callCreateValue_Some bindE_Inr spreadSet_orElse_empty
        props_orElse_empty fieldKey_def split: option.splits TrashedOption.splits)
  have rule: "createDeleteManyParams (?f config) ?p =
      Inr (Params (Some m) ''deleteMany'' (JObj [(''where'', ?w)]) None, None)"
    using assms(2) t w
    by (simp add: createDeleteManyParams_def noModel_def get_def bindE_Inr withOperationArgs_def
        orElse_def)
  have "issued (snd (rootOperation env m ?p s1)) =
      issued s1 @ [(uncapitalize m, ''deleteMany'', JObj [(''where'', ?w)])]"
    using issued_rootOperation_rule [OF createParamsLookup_rule [OF s1(2) rule_deleteMany] rule]
    by simp
  then show ?thesis
    using s1 by (simp add: forceDeleteMethod_def modelMethod_def rootOperations_def)
qed

theorem forceDelete_issues_deleteMany_witness:
  "issued (snd (forceDeleteMethod answeringEnv ''User'' (JObj [(''where'', JObj [(''id'', JNum 1)])])
      (exampleState (builtinDefaultConfig\<lparr> queryOption := Some OptAll \<rparr>)))) =
     [(''user'', ''deleteMany'', JObj [(''where'', JObj [(''id'', JNum 1)])])]"
  using forceDelete_issues_deleteMany [of
      "exampleState (builtinDefaultConfig\<lparr> queryOption := Some OptAll \<rparr>)" "''User''"
      "builtinDefaultConfig\<lparr> queryOption := Some OptAll \<rparr>" JBool answeringEnv
      "JObj [(''where'', JObj [(''id'', JNum 1)])]"]
  by (simp add: exampleState_def builtinDefaultConfig_def configOf_def get_def toLowerChar_def)

text \<open>
  Under the default mode the \<open>where\<close> issued is not the caller's: it also requires the
  field to be \<open>createValue(false)\<close>, so rows already soft-deleted are not removed.
\<close>

theorem forceDelete_issues_deleteMany_counterexample:
  "issued (snd (forceDeleteMethod answeringEnv ''User'' (JObj [(''where'', JObj [(''id'', JNum 1)])])
      (exampleState builtinDefaultConfig))) =
     [(''user'', ''deleteMany'',
       JObj [(''where'', JObj [(''id'', JNum 1), (''deleted'', JBool False)])])]
   \<and> issued (snd (forceDeleteMethod answeringEnv ''User'' (JObj [(''where'', JObj [(''id'', JNum 1)])])
      (exampleState builtinDefaultConfig))) \<noteq>
     [(''user'', ''deleteMany'', JObj [(''where'', JObj [(''id'', JNum 1)])])]"
  by (simp add: forceDeleteMethod_def setConfig_def exampleState_def builtinDefaultConfig_def
      modelMethod_def rootOperations_def rootOperation_def createParamsLookup_def configOf_def
      createParamsByOperation_def createDeleteManyParams_def noModel_def get_def orElse_def
      getNewWhere_def callCreateValue_def bindE_def spreadSet_def fieldKey_def
      withOperationArgs_def callClient_def answeringEnv_def resetConfig_def
      modifyResultLookup_def toLowerChar_def)

section \<open>The reset after a root operation\<close>

text \<open>
  C4, as the code has it. A root operation of a configured model that has a rewrite
  rule: when the rule throws, the error is returned and the state is untouched; when the
  call of the underlying client is rejected, the error is returned and no configuration
  object is written, so nothing is reset; when the call answers, the \<open>forceDelete\<close>,
  \<open>nestModels\<close> and \<open>queryOption\<close> of the model are back at \<open>false\<close>, \<open>{}\<close> and
  \<open>except\<close>.
\<close>

theorem rootOperation_reset:
  assumes "configOf s m = Some config"
    and "op \<in> set rootOperations"
    and "createParamsByOperation env op = Some rule"
  shows "case rule config (Params (Some m) op a None) of
           Inl e \<Rightarrow> modelMethod env m op a s = (Inl e, s)
         | Inr (p', c) \<Rightarrow>
             (case client env (database s) (uncapitalize m) (operation p') (args p') of
                (Inl e, db) \<Rightarrow>
                  fst (modelMethod env m op a s) = Inl e
                  \<and> objects (snd (modelMethod env m op a s)) = objects s
              | (Inr result, db) \<Rightarrow>
                  configOf (snd (modelMethod env m op a s)) m =
                    Some (config\<lparr> forceDelete := False, nestModels := Some [],
                                  queryOption := Some OptExcept \<rparr>))"
proof -
  let ?p = "Params (Some m) op a None"
  have look: "createParamsLookup env s ?p = Some (rule config)"
    using createParamsLookup_rule [OF assms(1) assms(3)] .
  have mm: "modelMethod env m op a s = rootOperation env m ?p s"
    using assms(2) by (simp add: modelMethod_def)
  show ?thesis
  proof (cases "rule config ?p")
    case (Inl e)
    then show ?thesis using rootOperation_rule_fails [OF look Inl] mm by simp
  next
    case (Inr pc)
    obtain p' c where pc: "pc = (p', c)" by (cases pc)
    obtain r db where cl: "client env (database s) (uncapitalize m) (operation p') (args p') = (r, db)"
      by (cases "client env (database s) (uncapitalize m) (operation p') (args p')")
    have "rule config ?p = Inr (p', c)" using Inr pc by simp
    from rootOperation_rule_succeeds [OF look this assms(1) cl]
    show ?thesis using Inr pc cl mm by (simp split: sum.splits)
  qed
qed

theorem rootOperation_reset_witness:
  "configOf (snd (modelMethod answeringEnv ''User'' ''findMany'' JUndefined
      (exampleState (builtinDefaultConfig\<lparr> queryOption := Some OptAll \<rparr>)))) ''User'' =
     Some builtinDefaultConfig"
  using rootOperation_reset [of
      "exampleState (builtinDefaultConfig\<lparr> queryOption := Some OptAll \<rparr>)" "''User''"
      "builtinDefaultConfig\<lparr> queryOption := Some OptAll \<rparr>" "''findMany''" answeringEnv
      createFindManyParams JUndefined]
  by (simp add: exampleState_def builtinDefaultConfig_def configOf_def rootOperations_def
      createParamsByOperation_def createFindManyParams_def findArgs_def getWhere_def
      getInclude_def nestModelsVal_def orElse_def get_def bindE_def spreadSet_def
      withOperationArgs_def answeringEnv_def)

text \<open>
  No reset on failure: a \<open>deleteMany\<close> that the underlying client rejects leaves
  \<open>forceDelete\<close> set.
\<close>

theorem rootOperation_reset_counterexample:
  "fst (modelMethod rejectingEnv ''User'' ''deleteMany'' (JObj [])
      (exampleState (builtinDefaultConfig\<lparr> forceDelete := True \<rparr>))) =
     Inl (ClientError ''rejected'')
   \<and> map_option forceDelete
       (configOf (snd (modelMethod rejectingEnv ''User'' ''deleteMany'' (JObj [])
          (exampleState (builtinDefaultConfig\<lparr> forceDelete := True \<rparr>)))) ''User'') =
     Some True"
  by (simp add: modelMethod_def rootOperations_def rootOperation_def createParamsLookup_def
      configOf_def exampleState_def builtinDefaultConfig_def createParamsByOperation_def
      createDeleteManyParams_def noModel_def get_def orElse_def getNewWhere_def
      callCreateValue_def bindE_def spreadSet_def fieldKey_def withOperationArgs_def
      callClient_def rejectingEnv_def)

section \<open>Lookups by a compound unique index\<close>

text \<open>
  C5, as the code has it. A \<open>findUnique\<close> or \<open>findUniqueOrThrow\<close> on a configured
  model whose \<open>where\<close> is an object with a key, of a defined value, that names a compound
  unique index of the model (no index has the empty name): with
  \<open>allowCompoundUniqueIndexWhere\<close> off the call fails with the guard error, which names a
  compound index key of the \<open>where\<close>, and leaves the state as it was, so nothing is
  executed; with it on the operation is passed through: exactly one call is issued, of
  the same operation with the caller's arguments unchanged.
\<close>

theorem findUnique_compound_index:
  assumes cfg: "configOf s m = Some config"
    and op: "op = ''findUnique'' \<or> op = ''findUniqueOrThrow''"
    and w: "get a ''where'' = JObj kvs"
    and kv: "(k, v) \<in> set kvs"
    and v: "v \<noteq> JUndefined"
    and k: "k \<in> set (tableLookup (uniqueIndexFieldsByModel (datamodel env)) (Some m))"
    and ne: "[] \<notin> set (tableLookup (uniqueIndexFieldsByModel (datamodel env)) (Some m))"
  shows "if allowCompoundUniqueIndexWhere config
         then issued (snd (modelMethod env m op a s)) = issued s @ [(uncapitalize m, op, a)]
         else \<exists>k'. k' \<in> set (tableLookup (uniqueIndexFieldsByModel (datamodel env)) (Some m))
                \<and> k' \<in> fst ` set kvs
                \<and> modelMethod env m op a s = (Inl (CompoundUniqueIndexQuery (Some m) k'), s)"
proof -
  let ?p = "Params (Some m) op a None"
  let ?dm = "datamodel env"
  have "\<exists>k'. k' \<in> set (tableLookup (uniqueIndexFieldsByModel ?dm) (Some m))
     \<and> k' \<in> fst ` set kvs
     \<and> createFindUniqueParams ?dm config ?p =
         (if allowCompoundUniqueIndexWhere config then Inr (?p, None)
          else Inl (CompoundUniqueIndexQuery (Some m) k'))
     \<and> createFindUniqueOrThrowParams ?dm config ?p =
         (if allowCompoundUniqueIndexWhere config then Inr (?p, None)
          else Inl (CompoundUniqueIndexQuery (Some m) k'))"
    using findUnique_rules_compound [of ?p kvs k v ?dm config] w kv v k ne
    by (cases "allowCompoundUniqueIndexWhere config") auto
  then obtain k' where k': "k' \<in> set (tableLookup (uniqueIndexFieldsByModel ?dm) (Some m))"
      "k' \<in> fst ` set kvs"
    and u: "createFindUniqueParams ?dm config ?p =
         (if allowCompoundUniqueIndexWhere config then Inr (?p, None)
          else Inl (CompoundUniqueIndexQuery (Some m) k'))"
    and ut: "createFindUniqueOrThrowParams ?dm config ?p =
         (if allowCompoundUniqueIndexWhere config then Inr (?p, None)
          else Inl (CompoundUniqueIndexQuery (Some m) k'))"
    by blast
  obtain rule where rule: "createParamsByOperation env op = Some rule"
    and res: "rule config ?p =
         (if allowCompoundUniqueIndexWhere config then Inr (?p, None)
          else Inl (CompoundUniqueIndexQuery (Some m) k'))"
    using op u ut rule_findUnique [of env] by blast
  have look: "createParamsLookup env s ?p = Some (rule config)"
    using createParamsLookup_rule [OF cfg rule] .
  have mm: "modelMethod env m op a s = rootOperation env m ?p s"
    using op by (auto simp: modelMethod_def rootOperations_def)
  show ?thesis
  proof (cases "allowCompoundUniqueIndexWhere config")
    case True
    then have "rule config ?p = Inr (?p, None)" using res by simp
    from issued_rootOperation_rule [OF look this, of m]
    show ?thesis using True mm by simp
  next
    case False
    then have "rule config ?p = Inl (CompoundUniqueIndexQuery (Some m) k')" using res by simp
    from rootOperation_rule_fails [OF look this, of m]
    show ?thesis using False mm k' by auto
  qed
qed

theorem findUnique_compound_index_witness:
  "modelMethod answeringEnv ''User'' ''findUnique''
     (JObj [(''where'', JObj [(''name_email'',
        JObj [(''name'', JStr ''Ann''), (''email'', JStr ''ann@example.org'')])])])
     (exampleState builtinDefaultConfig) =
   (Inl (CompoundUniqueIndexQuery (Some ''User'') ''name_email''), exampleState builtinDefaultConfig)"
  using findUnique_compound_index [of "exampleState builtinDefaultConfig" "''User''"
      builtinDefaultConfig "''findUnique''"
      "JObj [(''where'', JObj [(''name_email'',
        JObj [(''name'', JStr ''Ann''), (''email'', JStr ''ann@example.org'')])])]"
      "[(''name_email'', JObj [(''name'', JStr ''Ann''), (''email'', JStr ''ann@example.org'')])]"
      "''name_email''" "JObj [(''name'', JStr ''Ann''), (''email'', JStr ''ann@example.org'')]"
      answeringEnv]
  by (simp add: exampleState_def builtinDefaultConfig_def configOf_def get_def answeringEnv_def
      exampleDatamodel_def uniqueIndexFieldsByModel_def tableLookup_def)

text \<open>
  With \<open>allowCompoundUniqueIndexWhere\<close> on, the lookup is not rewritten to \<open>findFirst\<close>
  and no visibility \<open>where\<close> is injected.
\<close>

theorem findUnique_compound_index_counterexample:
  "issued (snd (modelMethod answeringEnv ''User'' ''findUnique''
     (JObj [(''where'', JObj [(''name_email'',
        JObj [(''name'', JStr ''Ann''), (''email'', JStr ''ann@example.org'')])])])
     (exampleState (builtinDefaultConfig\<lparr> allowCompoundUniqueIndexWhere := True \<rparr>)))) =
   [(''user'', ''findUnique'',
     JObj [(''where'', JObj [(''name_email'',
        JObj [(''name'', JStr ''Ann''), (''email'', JStr ''ann@example.org'')])])])]"
  by (simp add: modelMethod_def rootOperations_def rootOperation_def createParamsLookup_def
      configOf_def exampleState_def builtinDefaultConfig_def createParamsByOperation_def
      createFindUniqueParams_def shouldPassFindUniqueParamsThrough_def foundIndexField_def
      uniqueIndexField_def keys_def orElse_def get_def tableLookup_def
      uniqueIndexFieldsByModel_def uniqueFieldsByModel_def exampleDatamodel_def
      answeringEnv_def callClient_def resetConfig_def modifyResultLookup_def toLowerChar_def)

section \<open>Reads under the mode except\<close>

lemma read_rule_where:
  assumes ex: "queryOption config = None \<or> queryOption config = Some OptExcept"
    and cv: "createValue config = Some cv"
    and free: "\<not> truthy (get (get (args p) ''where'') (fieldKey config))"
    and op: "operation p \<in> set [''findFirst'', ''findFirstOrThrow'', ''findUnique'',
               ''findUniqueOrThrow'', ''findMany'', ''count'', ''aggregate'', ''groupBy'']"
    and uniq: "operation p \<in> set [''findUnique'', ''findUniqueOrThrow''] \<Longrightarrow>
               \<not> shouldPassFindUniqueParamsThrough (datamodel env) p config \<and> \<not> foundIndexField (datamodel env) p"
    and nest: "operation p \<notin> set [''count'', ''aggregate'', ''groupBy''] \<Longrightarrow>
               nestModels config \<noteq> None"
  shows "\<exists>rule p' c. createParamsByOperation env (operation p) = Some rule
           \<and> rule config p = Inr (p', c)
           \<and> get (get (args p') ''where'') (fieldKey config) = cv False"
proof -
  obtain w where w: "getWhere config p = Inr w" "get w (fieldKey config) = cv False"
    using getWhere_except [OF ex cv free] by blast
  have concl: "\<exists>rule p' c. createParamsByOperation env (operation p) = Some rule
           \<and> rule config p = Inr (p', c)
           \<and> get (get (args p') ''where'') (fieldKey config) = cv False"
    if "createParamsByOperation env (operation p) = Some rule"
      and "rule config p = Inr (p', None)" and "get (args p') ''where'' = w"
    for rule p'
    using that w(2) by blast
  from op consider
      (findFirst) "operation p = ''findFirst''"
    | (findFirstOrThrow) "operation p = ''findFirstOrThrow''"
    | (findUnique) "operation p = ''findUnique''"
    | (findUniqueOrThrow) "operation p = ''findUniqueOrThrow''"
    | (findMany) "operation p = ''findMany''"
    | (count) "operation p = ''count''"
    | (aggregate) "operation p = ''aggregate''"
    | (groupBy) "operation p = ''groupBy''"
    unfolding set_simps insert_iff empty_iff by blast
  then show ?thesis
  proof cases
    case findFirst
    then obtain nm where "nestModels config = Some nm" using nest by auto
    from find_rules_where [OF w(1) cv this] obtain a' where
      "createFindFirstParams config p = Inr (withOperationArgs p ''findFirst'' a', None)"
      "get a' ''where'' = w" by blast
    then show ?thesis
      using concl [of createFindFirstParams "withOperationArgs p ''findFirst'' a'"]
        rule_reads(1) [of env] findFirst by (simp add: withOperationArgs_def)
  next
    case findFirstOrThrow
    then obtain nm where "nestModels config = Some nm" using nest by auto
    from find_rules_where [OF w(1) cv this] obtain a' where
      "createFindFirstOrThrowParams config p =
         Inr (withOperationArgs p ''findFirstOrThrow'' a', None)"
      "get a' ''where'' = w" by blast
    then show ?thesis
      using concl [of createFindFirstOrThrowParams "withOperationArgs p ''findFirstOrThrow'' a'"]
        rule_reads(2) [of env] findFirstOrThrow by (simp add: withOperationArgs_def)
  next
    case findMany
    then obtain nm where "nestModels config = Some nm" using nest by auto
    from find_rules_where [OF w(1) cv this] obtain a' where
      "createFindManyParams config p = Inr (withOperationArgs p ''findMany'' a', None)"
      "get a' ''where'' = w" by blast
    then show ?thesis
      using concl [of createFindManyParams "withOperationArgs p ''findMany'' a'"]
        rule_reads(3) [of env] findMany by (simp add: withOperationArgs_def)
  next
    case findUnique
    then obtain nm where "nestModels config = Some nm" using nest by auto
    moreover have "\<not> shouldPassFindUniqueParamsThrough (datamodel env) p config" "\<not> foundIndexField (datamodel env) p"
      using uniq findUnique by simp_all
    ultimately obtain a' where
      "createFindUniqueParams (datamodel env) config p = Inr (withOperationArgs p ''findFirst'' a', None)"
      "get a' ''where'' = w"
      using findUnique_rules_where [OF w(1) cv] by blast
    then show ?thesis
      using concl [of "createFindUniqueParams (datamodel env)" "withOperationArgs p ''findFirst'' a'"]
        rule_findUnique(1) [of env] findUnique by (simp add: withOperationArgs_def)
  next
    case findUniqueOrThrow
    then obtain nm where "nestModels config = Some nm" using nest by auto
    moreover have "\<not> shouldPassFindUniqueParamsThrough (datamodel env) p config" "\<not> foundIndexField (datamodel env) p"
      using uniq findUniqueOrThrow by simp_all
    ultimately obtain a' where
      "createFindUniqueOrThrowParams (datamodel env) config p =
         Inr (withOperationArgs p ''findFirstOrThrow'' a', None)"
      "get a' ''where'' = w"
      using findUnique_rules_where [OF w(1) cv] by blast
    then show ?thesis
      using concl [of "createFindUniqueOrThrowParams (datamodel env)"
          "withOperationArgs p ''findFirstOrThrow'' a'"]
        rule_findUnique(2) [of env] findUniqueOrThrow by (simp add: withOperationArgs_def)
  next
    case count
    then show ?thesis
      using concl [of createCountParams
          "withArgs p (spreadSet (orElse (args p) (JObj [])) ''where'' w)"]
        count_rules_where [OF w(1)] rule_reads(4) [of env]
      by (simp add: withArgs_def get_spreadSet_same)
  next
    case aggregate
    then show ?thesis
      using concl [of createAggregateParams
          "withArgs p (spreadSet (orElse (args p) (JObj [])) ''where'' w)"]
        count_rules_where [OF w(1)] rule_reads(5) [of env]
      by (simp add: withArgs_def get_spreadSet_same)
  next
    case groupBy
    then show ?thesis
      using concl [of createGroupByParams
          "withOperationArgs p ''groupBy'' (spreadSet (args p) ''where'' w)"]
        count_rules_where [OF w(1)] rule_reads(6) [of env]
      by (simp add: withOperationArgs_def get_spreadSet_same)
  qed
qed

text \<open>
  C1, as the code has it. On a model configured with \<open>queryOption\<close> \<open>except\<close> (or
  none, which the rules treat alike) and a \<open>createValue\<close>, a read whose \<open>where\<close> has
  no truthy value for the field issues exactly one call to the underlying client, and
  the \<open>where\<close> of that call has the field at \<open>createValue(false)\<close>. This holds for
  \<open>count\<close>, \<open>aggregate\<close> and \<open>groupBy\<close>; for \<open>findFirst\<close>, \<open>findFirstOrThrow\<close> and
  \<open>findMany\<close> when the configuration has a \<open>nestModels\<close>; and for \<open>findUnique\<close> and
  \<open>findUniqueOrThrow\<close> when moreover the lookup is not passed through and its \<open>where\<close>
  has no compound unique index key.
\<close>

theorem read_where_except:
  assumes cfg: "configOf s m = Some config"
    and ex: "queryOption config = None \<or> queryOption config = Some OptExcept"
    and cv: "createValue config = Some cv"
    and free: "\<not> truthy (get (get a ''where'') (fieldKey config))"
    and op: "op \<in> set [''findFirst'', ''findFirstOrThrow'', ''findUnique'',
               ''findUniqueOrThrow'', ''findMany'', ''count'', ''aggregate'', ''groupBy'']"
    and uniq: "op \<in> set [''findUnique'', ''findUniqueOrThrow''] \<Longrightarrow>
               \<not> shouldPassFindUniqueParamsThrough (datamodel env) (Params (Some m) op a None) config
               \<and> \<not> foundIndexField (datamodel env) (Params (Some m) op a None)"
    and nest: "op \<notin> set [''count'', ''aggregate'', ''groupBy''] \<Longrightarrow> nestModels config \<noteq> None"
  shows "\<exists>op' a'. issued (snd (modelMethod env m op a s)) = issued s @ [(uncapitalize m, op', a')]
           \<and> get (get a' ''where'') (fieldKey config) = cv False"
proof -
  let ?p = "Params (Some m) op a None"
  have "\<exists>rule p' c. createParamsByOperation env op = Some rule
           \<and> rule config ?p = Inr (p', c)
           \<and> get (get (args p') ''where'') (fieldKey config) = cv False"
    using read_rule_where [of config cv ?p env, unfolded params.sel,
        OF ex cv free op uniq nest] .
  then obtain rule p' c where rule: "createParamsByOperation env op = Some rule"
    and res: "rule config ?p = Inr (p', c)"
    and w: "get (get (args p') ''where'') (fieldKey config) = cv False"
    by (elim exE conjE)
  have "op \<in> set rootOperations"
    using subsetD [OF reads_are_rootOperations op] .
  then have mm: "modelMethod env m op a s = rootOperation env m ?p s"
    by (simp add: modelMethod_def)
  from issued_rootOperation_rule [OF createParamsLookup_rule [OF cfg rule] res, of m]
  show ?thesis using mm w by auto
qed

theorem read_where_except_witness:
  "\<exists>op' a'. issued (snd (modelMethod answeringEnv ''User'' ''findUnique''
       (JObj [(''where'', JObj [(''id'', JNum 1)])]) (exampleState builtinDefaultConfig))) =
       [(''user'', op', a')]
     \<and> get (get a' ''where'') ''deleted'' = JBool False"
  using read_where_except [of "exampleState builtinDefaultConfig" "''User''"
      builtinDefaultConfig JBool "JObj [(''where'', JObj [(''id'', JNum 1)])]" "''findUnique''"
      answeringEnv]
  by (simp add: exampleState_def builtinDefaultConfig_def configOf_def get_def fieldKey_def
      answeringEnv_def exampleDatamodel_def shouldPassFindUniqueParamsThrough_def
      foundIndexField_def uniqueIndexField_def keys_def orElse_def tableLookup_def
      uniqueIndexFieldsByModel_def uniqueFieldsByModel_def toLowerChar_def)

text \<open>
  A lookup by a compound unique index with \<open>allowCompoundUniqueIndexWhere\<close> on is
  executed as it came: its \<open>where\<close> does not have the field.
\<close>

theorem read_where_except_counterexample:
  "issued (snd (modelMethod answeringEnv ''User'' ''findUniqueOrThrow''
     (JObj [(''where'', JObj [(''name_email'',
        JObj [(''name'', JStr ''Ann''), (''email'', JStr ''ann@example.org'')])])])
     (exampleState (builtinDefaultConfig\<lparr> allowCompoundUniqueIndexWhere := True \<rparr>)))) =
   [(''user'', ''findUniqueOrThrow'',
     JObj [(''where'', JObj [(''name_email'',
        JObj [(''name'', JStr ''Ann''), (''email'', JStr ''ann@example.org'')])])])]
   \<and> get (get (JObj [(''where'', JObj [(''name_email'',
        JObj [(''name'', JStr ''Ann''), (''email'', JStr ''ann@example.org'')])])]) ''where'')
         ''deleted'' = JUndefined"
  by (simp add: modelMethod_def rootOperations_def rootOperation_def createParamsLookup_def
      configOf_def exampleState_def builtinDefaultConfig_def createParamsByOperation_def
      createFindUniqueOrThrowParams_def shouldPassFindUniqueParamsThrough_def foundIndexField_def
      uniqueIndexField_def keys_def orElse_def get_def tableLookup_def
      uniqueIndexFieldsByModel_def uniqueFieldsByModel_def exampleDatamodel_def
      answeringEnv_def callClient_def resetConfig_def modifyResultLookup_def toLowerChar_def)

section \<open>Conditions under the modifier every\<close>

text \<open>
  C7, as the code has it. A nested \<open>where\<close> reached under the modifier \<open>every\<close>, whose
  arguments are there and have no truthy value for the field: the arguments become an
  \<open>OR\<close> of two conditions, first that the field is not \<open>createValue(false)\<close>, which is to
  say that the record is deleted, then the original arguments.
\<close>

theorem createWhereParams_every:
  assumes "scope p = Some s"
    and "modifier s = Some ''every''"
    and "args p \<noteq> JUndefined" and "args p \<noteq> JNull"
    and "\<not> truthy (get (args p) (fieldKey config))"
    and "createValue config = Some cv"
  shows "createWhereParams config p =
           Inr (withArgs p
                  (JObj [(''OR'', JArr [JObj [(fieldKey config, JObj [(''not'', cv False)])],
                                       args p])]),
                None)"
  using assms by (simp add: createWhereParams_def callCreateValue_Some bindE_Inr)

theorem createWhereParams_every_witness:
  "createWhereParams builtinDefaultConfig everyPosts =
     Inr (withArgs everyPosts
            (JObj [(''OR'', JArr [JObj [(''deleted'', JObj [(''not'', JBool False)])],
                                 JObj [(''title'', JStr ''x'')]])]),
          None)"
  using createWhereParams_every [of everyPosts
      "Scope (Params (Some ''User'') ''findMany'' JUndefined None)
         (Some \<lparr> to = \<lparr> name = ''posts'', isList = True \<rparr> \<rparr>) (Some ''every'')"
      builtinDefaultConfig JBool]
  by (simp add: everyPosts_def builtinDefaultConfig_def get_def fieldKey_def)

text \<open>
  The first condition of the \<open>OR\<close> is not that the field marks the record as
  not deleted.
\<close>

theorem createWhereParams_every_counterexample:
  "createWhereParams builtinDefaultConfig everyPosts \<noteq>
     Inr (withArgs everyPosts
            (JObj [(''OR'', JArr [JObj [(''deleted'', JBool False)],
                                 JObj [(''title'', JStr ''x'')]])]),
          None)"
  by (simp add: createWhereParams_def everyPosts_def builtinDefaultConfig_def get_def
      fieldKey_def callCreateValue_def bindE_def withArgs_def)

section \<open>Include injection\<close>

text \<open>
  What the loops of \<open>getInclude\<close> leave in the local \<open>include\<close>: a relation enters it
  only through a key it matches, and the last such key decides what is put there.
\<close>

lemma includeStep_update:
  assumes "createValue config = Some cv"
  shows "includeStep config p key r (JObj kvs) =
     Inr (JObj (if includesStr (toLowerCase r) (toLowerCase key)
                then AList.update r
                       (JObj [(''where'',
                          if truthy (get (nestModelsVal config) key)
                          then orElse (get (get (get (args p) ''include'') r) ''where'') (JObj [])
                          else spreadSet
                                 (orElse (get (get (get (args p) ''include'') r) ''where'') (JObj []))
                                 (fieldKey config) (cv False))]) kvs
                else kvs))"
  using assms
  by (simp add: includeStep_def Let_def callCreateValue_Some bindE_Inr spreadSet_def)

lemma forEach_includeStep_entries:
  assumes "createValue config = Some cv"
  shows "\<exists>kvs'. forEachE (includeStep config p key) rs (JObj kvs) = Inr (JObj kvs')
     \<and> (\<forall>r. map_of kvs' r =
           (if r \<in> set rs \<and> includesStr (toLowerCase r) (toLowerCase key)
            then Some (JObj [(''where'',
                    if truthy (get (nestModelsVal config) key)
                    then orElse (get (get (get (args p) ''include'') r) ''where'') (JObj [])
                    else spreadSet
                           (orElse (get (get (get (args p) ''include'') r) ''where'') (JObj []))
                           (fieldKey config) (cv False))])
            else map_of kvs r))"
proof (induction rs arbitrary: kvs)
  case Nil
  then show ?case by simp
next
  case (Cons r0 rs)
  let ?kvs1 = "if includesStr (toLowerCase r0) (toLowerCase key)
                then AList.update r0
                       (JObj [(''where'',
                          if truthy (get (nestModelsVal config) key)
                          then orElse (get (get (get (args p) ''include'') r0) ''where'') (JObj [])
                          else spreadSet
                                 (orElse (get (get (get (args p) ''include'') r0) ''where'') (JObj []))
                                 (fieldKey config) (cv False))]) kvs
                else kvs"
  have step: "includeStep config p key r0 (JObj kvs) = Inr (JObj ?kvs1)"
    using includeStep_update [OF assms] .
  from Cons.IH [of ?kvs1] obtain kvs' where
    k1: "forEachE (includeStep config p key) rs (JObj ?kvs1) = Inr (JObj kvs')"
    and k2: "\<forall>r. map_of kvs' r =
           (if r \<in> set rs \<and> includesStr (toLowerCase r) (toLowerCase key)
            then Some (JObj [(''where'',
                    if truthy (get (nestModelsVal config) key)
                    then orElse (get (get (get (args p) ''include'') r) ''where'') (JObj [])
                    else spreadSet
                           (orElse (get (get (get (args p) ''include'') r) ''where'') (JObj []))
                           (fieldKey config) (cv False))])
            else map_of ?kvs1 r)"
    by blast
  have "forEachE (includeStep config p key) (r0 # rs) (JObj kvs) = Inr (JObj kvs')"
    using step k1 by (simp add: bindE_Inr)
  moreover have "\<forall>r. map_of kvs' r =
           (if r \<in> set (r0 # rs) \<and> includesStr (toLowerCase r) (toLowerCase key)
            then Some (JObj [(''where'',
                    if truthy (get (nestModelsVal config) key)
                    then orElse (get (get (get (args p) ''include'') r) ''where'') (JObj [])
                    else spreadSet
                           (orElse (get (get (get (args p) ''include'') r) ''where'') (JObj []))
                           (fieldKey config) (cv False))])
            else map_of kvs r)"
    using k2 by (auto simp: update_conv')
  ultimately show ?case by blast
qed

lemma forEach_includeStep_cases:
  assumes "createValue config = Some cv"
  shows "\<exists>kvs'. forEachE (includeStep config p key) rs (JObj kvs) = Inr (JObj kvs')
     \<and> (\<forall>r. \<not> includesStr (toLowerCase r) (toLowerCase key) \<longrightarrow> map_of kvs' r = map_of kvs r)
     \<and> (\<forall>r. map_of kvs r \<noteq> None \<longrightarrow> map_of kvs' r \<noteq> None)
     \<and> (\<forall>r. r \<in> set rs \<and> includesStr (toLowerCase r) (toLowerCase key) \<longrightarrow>
            map_of kvs' r \<noteq> None)"
proof -
  from forEach_includeStep_entries [OF assms, of p key rs kvs] obtain kvs' where
    k: "forEachE (includeStep config p key) rs (JObj kvs) = Inr (JObj kvs')"
    "\<forall>r. map_of kvs' r =
           (if r \<in> set rs \<and> includesStr (toLowerCase r) (toLowerCase key)
            then Some (JObj [(''where'',
                    if truthy (get (nestModelsVal config) key)
                    then orElse (get (get (get (args p) ''include'') r) ''where'') (JObj [])
                    else spreadSet
                           (orElse (get (get (get (args p) ''include'') r) ''where'') (JObj []))
                           (fieldKey config) (cv False))])
            else map_of kvs r)"
    by blast
  from k(2) have "\<forall>r. \<not> includesStr (toLowerCase r) (toLowerCase key) \<longrightarrow>
      map_of kvs' r = map_of kvs r" by simp
  moreover from k(2) have "\<forall>r. map_of kvs r \<noteq> None \<longrightarrow> map_of kvs' r \<noteq> None" by simp
  moreover from k(2) have "\<forall>r. r \<in> set rs \<and> includesStr (toLowerCase r) (toLowerCase key) \<longrightarrow>
            map_of kvs' r \<noteq> None" by simp
  ultimately show ?thesis using k(1) by blast
qed

lemma forEach_keys_cases:
  assumes "createValue config = Some cv"
  shows "\<exists>kvs'. forEachE (\<lambda>key. forEachE (includeStep config p key) rs) ks (JObj kvs) =
           Inr (JObj kvs')
     \<and> (\<forall>r. (\<forall>key \<in> set ks. \<not> includesStr (toLowerCase r) (toLowerCase key)) \<longrightarrow>
            map_of kvs' r = map_of kvs r)
     \<and> (\<forall>r. map_of kvs r \<noteq> None \<longrightarrow> map_of kvs' r \<noteq> None)
     \<and> (\<forall>r. r \<in> set rs \<and> (\<exists>key \<in> set ks. includesStr (toLowerCase r) (toLowerCase key)) \<longrightarrow>
            map_of kvs' r \<noteq> None)"
proof (induction ks arbitrary: kvs)
  case Nil
  then show ?case by simp
next
  case (Cons k ks)
  from forEach_includeStep_cases [OF assms, of p k rs kvs] obtain kvs1 where
    a: "forEachE (includeStep config p k) rs (JObj kvs) = Inr (JObj kvs1)"
    and a1: "\<forall>r. \<not> includesStr (toLowerCase r) (toLowerCase k) \<longrightarrow> map_of kvs1 r = map_of kvs r"
    and a2: "\<forall>r. map_of kvs r \<noteq> None \<longrightarrow> map_of kvs1 r \<noteq> None"
    and a3: "\<forall>r. r \<in> set rs \<and> includesStr (toLowerCase r) (toLowerCase k) \<longrightarrow>
            map_of kvs1 r \<noteq> None"
    by blast
  from Cons.IH [of kvs1] obtain kvs' where
    b: "forEachE (\<lambda>key. forEachE (includeStep config p key) rs) ks (JObj kvs1) = Inr (JObj kvs')"
    and b1: "\<forall>r. (\<forall>key \<in> set ks. \<not> includesStr (toLowerCase r) (toLowerCase key)) \<longrightarrow>
            map_of kvs' r = map_of kvs1 r"
    and b2: "\<forall>r. map_of kvs1 r \<noteq> None \<longrightarrow> map_of kvs' r \<noteq> None"
    and b3: "\<forall>r. r \<in> set rs \<and> (\<exists>key \<in> set ks. includesStr (toLowerCase r) (toLowerCase key)) \<longrightarrow>
            map_of kvs' r \<noteq> None"
    by blast
  have "forEachE (\<lambda>key. forEachE (includeStep config p key) rs) (k # ks) (JObj kvs) =
           Inr (JObj kvs')"
    using a b by (simp add: bindE_Inr)
  moreover have "\<forall>r. (\<forall>key \<in> set (k # ks). \<not> includesStr (toLowerCase r) (toLowerCase key)) \<longrightarrow>
            map_of kvs' r = map_of kvs r"
    using a1 b1 by simp
  moreover have "\<forall>r. map_of kvs r \<noteq> None \<longrightarrow> map_of kvs' r \<noteq> None"
    using a2 b2 by simp
  moreover have "\<forall>r. r \<in> set rs
        \<and> (\<exists>key \<in> set (k # ks). includesStr (toLowerCase r) (toLowerCase key)) \<longrightarrow>
            map_of kvs' r \<noteq> None"
    using a3 b2 b3 by auto
  ultimately show ?case by blast
qed

text \<open>
  When an included relation matches a key of \<open>nestModels\<close>, the include of the rewritten
  find has no entry for an included relation that matches none.
\<close>

lemma findArgs_drops_unmatched:
  assumes cv: "createValue config = Some cv"
    and nm: "nestModels config = Some nm"
    and w: "getWhere config p = Inr w"
    and matched: "r' \<in> set (keys (get (args p) ''include''))"
      "key \<in> set (map fst nm)" "includesStr (toLowerCase r') (toLowerCase key)"
    and unmatched: "\<forall>key \<in> set (map fst nm). \<not> includesStr (toLowerCase r) (toLowerCase key)"
  shows "\<exists>a'. findArgs config p = Inr a' \<and> get (get a' ''include'') r = JUndefined"
proof -
  let ?rs = "keys (orElse (get (args p) ''include'') (JObj []))"
  let ?ks = "keys (orElse (nestModelsVal config) (JObj []))"
  have ks: "?ks = map fst nm"
    using nm by (simp add: nestModelsVal_def orElse_def keys_def comp_def case_prod_unfold)
  have rs: "?rs = keys (get (args p) ''include'')"
    by (simp add: keys_def props_orElse_empty)
  have ne: "nm \<noteq> []" using matched(2) by auto
  from forEach_keys_cases [OF cv, of p ?rs ?ks "[]"] obtain kvs' where
    f: "forEachE (\<lambda>key. forEachE (includeStep config p key) ?rs) ?ks (JObj []) = Inr (JObj kvs')"
    and f1: "\<forall>r. (\<forall>key \<in> set ?ks. \<not> includesStr (toLowerCase r) (toLowerCase key)) \<longrightarrow>
            map_of kvs' r = map_of [] r"
    and f3: "\<forall>r. r \<in> set ?rs \<and> (\<exists>key \<in> set ?ks. includesStr (toLowerCase r) (toLowerCase key)) \<longrightarrow>
            map_of kvs' r \<noteq> None"
    by blast
  have gi: "getInclude config p = Inr (JObj kvs')"
    using f nm ne by (simp add: getInclude_def nestModelsVal_def bindE_Inr)
  have "map_of kvs' r' \<noteq> None" using f3 matched ks rs by auto
  then have nonempty: "kvs' \<noteq> []" by auto
  have "map_of kvs' r = None" using f1 unmatched ks by simp
  then have "get (JObj kvs') r = JUndefined" by (simp add: get_def)
  then show ?thesis
    using w gi nonempty by (simp add: findArgs_def bindE_Inr get_spreadSet_same)
qed

text \<open>
  C8. With \<open>nestModels\<close> \<open>{ Post: false }\<close>, a \<open>findMany\<close> that includes \<open>posts\<close> and
  \<open>profile\<close> is rewritten to one that includes \<open>posts\<close> only, with the field injected
  in its \<open>where\<close>: the relation \<open>profile\<close>, which matches no configured key, is dropped
  from the include.
\<close>

theorem getInclude_drops_unmatched:
  "createFindManyParams (builtinDefaultConfig\<lparr> nestModels := Some [(''Post'', False)] \<rparr>)
     (Params (Some ''User'') ''findMany''
        (JObj [(''include'', JObj [(''posts'', JBool True), (''profile'', JBool True)])]) None) =
   Inr (Params (Some ''User'') ''findMany''
          (JObj [(''include'',
                   JObj [(''posts'', JObj [(''where'', JObj [(''deleted'', JBool False)])])]),
                 (''where'', JObj [(''deleted'', JBool False)])]) None, None)"
  by (simp add: createFindManyParams_def findArgs_def getWhere_def getInclude_def
      nestModelsVal_def includeStep_def keys_def orElse_def get_def builtinDefaultConfig_def
      fieldKey_def callCreateValue_def bindE_def spreadSet_def withOperationArgs_def
      toLowerCase_def toLowerChar_def)

section \<open>Construction\<close>

lemma registerModel_sets:
  assumes "map_of ms m = Some (Override config)"
  shows "fst (registerModel ms m acc) (ModelObject m) = Some config
       \<and> snd (registerModel ms m acc) m = Some (ModelObject m)"
  using assms by (simp add: registerModel_def)

lemma registerModel_keeps:
  assumes "map_of ms m = Some (Override config)"
    and "fst acc (ModelObject m) = Some config \<and> snd acc m = Some (ModelObject m)"
  shows "fst (registerModel ms n acc) (ModelObject m) = Some config
       \<and> snd (registerModel ms n acc) m = Some (ModelObject m)"
  using assms
  by (cases "n = m")
     (simp_all add: registerModel_def split: option.splits ModelEntry.splits bool.splits)

lemma fold_registerModel_keeps:
  assumes "map_of ms m = Some (Override config)"
    and "fst acc (ModelObject m) = Some config \<and> snd acc m = Some (ModelObject m)"
  shows "fst (fold (registerModel ms) ns acc) (ModelObject m) = Some config
       \<and> snd (fold (registerModel ms) ns acc) m = Some (ModelObject m)"
  using assms(2)
proof (induction ns arbitrary: acc)
  case Nil
  then show ?case by simp
next
  case (Cons n ns)
  from Cons.IH [OF registerModel_keeps [OF assms(1) Cons.prems, of n]]
  show ?case by simp
qed

lemma fold_registerModel_override:
  assumes "map_of ms m = Some (Override config)" and "m \<in> set ns"
  shows "fst (fold (registerModel ms) ns acc) (ModelObject m) = Some config
       \<and> snd (fold (registerModel ms) ns acc) m = Some (ModelObject m)"
  using assms(2)
proof (induction ns arbitrary: acc)
  case Nil
  then show ?case by simp
next
  case (Cons n ns)
  show ?case
  proof (cases "n = m")
    case True
    from fold_registerModel_keeps [OF assms(1) registerModel_sets [OF assms(1), of acc], of ns]
    show ?thesis using True by simp
  next
    case False
    then have "m \<in> set ns" using Cons.prems by simp
    from Cons.IH [OF this, of "registerModel ms n acc"] show ?thesis by simp
  qed
qed

lemma map_of_in_keys: "map_of ms m = Some x \<Longrightarrow> m \<in> set (map fst ms)"
  by (metis map_of_eq_None_iff option.distinct(1) set_map)

text \<open>
  C10. Construction looks at the default configuration only (the one passed, or the
  built-in one): it fails with the first error exactly when the default has no \<open>field\<close>
  (none, or the empty string), with the second exactly when it has a \<open>field\<close> but no
  \<open>createValue\<close>, and otherwise succeeds; then every model given a configuration
  object has that very object as its configuration, whatever the object holds or lacks.
\<close>

theorem createSoftDeleteExtension_validation:
  fixes c :: Config and db :: 'db
  defines "d \<equiv> (case defaultConfig c of None \<Rightarrow> builtinDefaultConfig | Some x \<Rightarrow> x)"
  shows "(createSoftDeleteExtension c db = Inl DefaultConfigFieldRequired
            \<longleftrightarrow> field d = None \<or> field d = Some [])
     \<and> (createSoftDeleteExtension c db = Inl DefaultConfigCreateValueRequired
            \<longleftrightarrow> field d \<noteq> None \<and> field d \<noteq> Some [] \<and> createValue d = None)
     \<and> (field d \<noteq> None \<and> field d \<noteq> Some [] \<and> createValue d \<noteq> None \<longrightarrow>
          (\<exists>st. createSoftDeleteExtension c db = Inr st
             \<and> (\<forall>m config. map_of (models c) m = Some (Override config) \<longrightarrow>
                   configOf st m = Some config)))"
proof -
  let ?built = "fold (registerModel (models c)) (map fst (models c))
                  (Map.empty(DefaultObject \<mapsto> d), Map.empty)"
  have acc: "configOf \<lparr> objects = fst ?built, modelConfig = snd ?built, database = db,
                        issued = [] \<rparr> m = Some config"
    if "map_of (models c) m = Some (Override config)" for m config
    using fold_registerModel_override [OF that map_of_in_keys [OF that],
        of "(Map.empty(DefaultObject \<mapsto> d), Map.empty)"]
    by (simp add: configOf_def)
  show ?thesis
    using acc by (auto simp: createSoftDeleteExtension_def d_def Let_def)
qed

theorem createSoftDeleteExtension_validation_witness:
  "\<exists>st. createSoftDeleteExtension
           \<lparr> models = [(''Post'', Override bareOverride), (''User'', Flag True)],
             defaultConfig = None \<rparr> () = Inr st
        \<and> configOf st ''Post'' = Some bareOverride"
  using createSoftDeleteExtension_validation [of
      "\<lparr> models = [(''Post'', Override bareOverride), (''User'', Flag True)],
         defaultConfig = None \<rparr>" "()"]
  by (auto simp: builtinDefaultConfig_def)

end
